theory Spec2Isabelle
  imports Complex_Main "HOL-Library.Word"
begin

unbundle bit_operations_syntax

section \<open>Errors\<close>

text \<open>The exceptions the modelled code raises or lets through.\<close>

datatype error =
    GMixFatalError
  | RuntimeError string
  | MissingDataError string
  | ValueError
  | IndexError
  | KeyError
  | TypeError
  | AttributeError
  | AssertionError
  | LinAlgError
  | OtherError string

section \<open>Two-dimensional arrays\<close>

text \<open>
  A numpy array of rank two is a list of rows. The arrays of the program are rectangular;
  \<open>rect nr nc m\<close> says that \<open>m\<close> has shape \<open>(nr, nc)\<close>.
\<close>

type_synonym 'a array2 = "'a list list"

definition shape0 :: "'a array2 \<Rightarrow> nat" where
  "shape0 m = length m"

definition shape1 :: "'a array2 \<Rightarrow> nat" where
  "shape1 m = (case m of [] \<Rightarrow> 0 | r # _ \<Rightarrow> length r)"

definition rect :: "nat \<Rightarrow> nat \<Rightarrow> 'a array2 \<Rightarrow> bool" where
  "rect nr nc m \<longleftrightarrow> length m = nr \<and> (\<forall>r \<in> set m. length r = nc)"

definition get2 :: "'a array2 \<Rightarrow> nat \<Rightarrow> nat \<Rightarrow> 'a" where
  "get2 m i j = m ! i ! j"

definition set2 :: "'a array2 \<Rightarrow> nat \<Rightarrow> nat \<Rightarrow> 'a \<Rightarrow> 'a array2" where
  "set2 m i j v = m[i := (m ! i)[j := v]]"

text \<open>
  \<open>numpy.where(cond)\<close> on a rank-two array: the row indices and the column indices of the
  pixels that satisfy the condition, in row-major order.
\<close>

definition where_pairs :: "('a \<Rightarrow> bool) \<Rightarrow> 'a array2 \<Rightarrow> (nat \<times> nat) list" where
  "where_pairs p m =
     concat (map (\<lambda>i. map (\<lambda>j. (i, j)) (filter (\<lambda>j. p (m ! i ! j)) [0..<length (m ! i)]))
                 [0..<length m])"

definition where2 :: "('a \<Rightarrow> bool) \<Rightarrow> 'a array2 \<Rightarrow> int list \<times> int list" where
  "where2 p m = (map (\<lambda>q. int (fst q)) (where_pairs p m), map (\<lambda>q. int (snd q)) (where_pairs p m))"

text \<open>\<open>a[:, :] = v\<close> and \<open>a[q] = v\<close> for the index pairs \<open>q\<close> of a \<open>numpy.where\<close>.\<close>

definition fill2 :: "'b \<Rightarrow> 'a array2 \<Rightarrow> 'b array2" where
  "fill2 v m = map (map (\<lambda>_. v)) m"

definition set_pairs :: "'a array2 \<Rightarrow> (nat \<times> nat) list \<Rightarrow> 'a \<Rightarrow> 'a array2" where
  "set_pairs m q v = fold (\<lambda>p a. set2 a (fst p) (snd p) v) q m"

definition amap :: "('a \<Rightarrow> 'b) \<Rightarrow> 'a array2 \<Rightarrow> 'b array2" where
  "amap f m = map (map f) m"

section \<open>Mask dilation: \<open>Y1DESMEDSImageIO._expand_mask\<close>\<close>

text \<open>
  The loop state is the copy \<open>cbmask\<close> and the two index lists \<open>qx\<close>, \<open>qy\<close> that the
  round appends to. The innermost body runs under both range checks.
\<close>

type_synonym 'a expand_state = "'a array2 \<times> int list \<times> int list"

definition expand_dy :: "nat \<Rightarrow> int \<Rightarrow> int \<Rightarrow> int \<Rightarrow> ('a::one) expand_state \<Rightarrow> 'a expand_state" where
  "expand_dy n1 iix iy dy s =
     (let iiy = iy + dy in
      if iiy \<ge> 0 \<and> iiy < int n1
      then (case s of (cb, qx, qy) \<Rightarrow> (set2 cb (nat iix) (nat iiy) 1, qx @ [iix], qy @ [iiy]))
      else s)"

definition expand_dx :: "nat \<Rightarrow> nat \<Rightarrow> int \<Rightarrow> int \<Rightarrow> int \<Rightarrow> ('a::one) expand_state \<Rightarrow> 'a expand_state" where
  "expand_dx n0 n1 ix iy dx s =
     (let iix = ix + dx in
      if iix \<ge> 0 \<and> iix < int n0
      then fold (expand_dy n1 iix iy) [-1, 0, 1] s
      else s)"

definition expand_pixel :: "nat \<Rightarrow> nat \<Rightarrow> int \<times> int \<Rightarrow> ('a::one) expand_state \<Rightarrow> 'a expand_state" where
  "expand_pixel n0 n1 p s = (case p of (ix, iy) \<Rightarrow> fold (expand_dx n0 n1 ix iy) [-1, 0, 1] s)"

definition expand_round :: "nat \<Rightarrow> nat \<Rightarrow> ('a::one) expand_state \<Rightarrow> 'a expand_state" where
  "expand_round n0 n1 s =
     (case s of (cb, qx_prev, qy_prev) \<Rightarrow> fold (expand_pixel n0 n1) (zip qx_prev qy_prev) (cb, [], []))"

fun expand_rounds :: "nat \<Rightarrow> nat \<Rightarrow> nat \<Rightarrow> ('a::one) expand_state \<Rightarrow> 'a expand_state" where
  "expand_rounds 0 n0 n1 s = s"
| "expand_rounds (Suc r) n0 n1 s = expand_rounds r n0 n1 (expand_round n0 n1 s)"

definition expand_mask :: "('a::zero_neq_one) array2 \<Rightarrow> nat \<Rightarrow> 'a array2" where
  "expand_mask bmask rounds =
     (case where2 (\<lambda>v. v \<noteq> 0) bmask of (qx_prev, qy_prev) \<Rightarrow>
        fst (expand_rounds rounds (shape0 bmask) (shape1 bmask) (bmask, qx_prev, qy_prev)))"

section \<open>Observations\<close>

text \<open>
  The part of an ngmix \<open>Observation\<close> that the code reads and writes. \<open>image\<close>, \<open>weight\<close>,
  \<open>jacobian\<close> and the PSF are always there; \<open>weight_raw\<close>, \<open>weight_us\<close> and
  \<open>weight_orig\<close> are attributes attached by the reader, so each of them is missing
  (\<open>Absent\<close>), holds \<open>None\<close> (\<open>PyNone\<close>) or holds an array. Floating-point pixels are real
  numbers: the arithmetic is exact, rounding is not modelled.
\<close>

datatype 'a attr = Absent | PyNone | Arr 'a

record jacobian =
  row0 :: real
  col0 :: real
  dudrow :: real
  dudcol :: real
  dvdrow :: real
  dvdcol :: real
  scale :: real

record 'p obs =
  flags :: int
  icut :: nat
  image_arr :: "real array2"
  weight :: "real array2"
  weight_raw :: "real array2 attr"
  weight_us :: "real array2 attr"
  weight_orig :: "real array2 attr"
  seg :: "int array2"
  jacob :: jacobian
  psf :: 'p

section \<open>Bad-pixel bits\<close>

definition IMAGE_FLAGS_SET :: int where "IMAGE_FLAGS_SET = 2 ^ 0"
definition PSF_IN_BLACKLIST :: int where "PSF_IN_BLACKLIST = 2 ^ 1"
definition PSF_MISSING_S2N :: int where "PSF_MISSING_S2N = 2 ^ 2"
definition PSF_LOW_S2N :: int where "PSF_LOW_S2N = 2 ^ 3"
definition PSF_FILE_READ_ERROR :: int where "PSF_FILE_READ_ERROR = 2 ^ 4"

definition DESY3_BADPIX_MAP :: "(string \<times> int) list" where
  "DESY3_BADPIX_MAP =
     [(''BPM'', 1), (''SATURATE'', 2), (''INTERP'', 4), (''BADAMP'', 8), (''CRAY'', 16),
      (''STAR'', 32), (''TRAIL'', 64), (''EDGEBLEED'', 128), (''SSXTALK'', 256),
      (''EDGE'', 512), (''STREAK'', 1024), (''SUSPECT'', 2048)]"

text \<open>\<open>DESY3_BADPIX_MAP[name]\<close>: a missing key raises \<open>KeyError\<close>.\<close>

definition badpix :: "string \<Rightarrow> error + int" where
  "badpix name = (case map_of DESY3_BADPIX_MAP name of None \<Rightarrow> Inl KeyError | Some v \<Rightarrow> Inr v)"

text \<open>The three literal lookups of \<open>_interpolate_maskbits\<close>; their keys are in the map.\<close>

definition BADPIX_SATURATE :: int where
  "BADPIX_SATURATE = (case badpix ''SATURATE'' of Inr v \<Rightarrow> v | Inl _ \<Rightarrow> 0)"

definition BADPIX_INTERP :: int where
  "BADPIX_INTERP = (case badpix ''INTERP'' of Inr v \<Rightarrow> v | Inl _ \<Rightarrow> 0)"

definition BADPIX_STAR :: int where
  "BADPIX_STAR = (case badpix ''STAR'' of Inr v \<Rightarrow> v | Inl _ \<Rightarrow> 0)"

text \<open>
  \<open>_set_propagate_saturated_stars\<close>: the ignore mask is the sum (not the bitwise or) of the
  listed flags' values.
\<close>

fun ignore_when_set_mask :: "string list \<Rightarrow> int \<Rightarrow> error + int" where
  "ignore_when_set_mask [] msk = Inr msk"
| "ignore_when_set_mask (flag # flag_list) msk =
     (case badpix flag of Inl e \<Rightarrow> Inl e | Inr v \<Rightarrow> ignore_when_set_mask flag_list (msk + v))"

section \<open>Mask reduction: \<open>Y1DESMEDSImageIO._interpolate_maskbits\<close>\<close>

text \<open>
  Bad-pixel masks are \<open>i4\<close> arrays; their pixels are embedded in \<open>int\<close>, on which \<open>AND\<close>
  is the two's-complement conjunction that numpy computes. In Python \<open>&\<close> binds tighter
  than \<open>!=\<close> and \<open>==\<close>, so \<open>im1 & b != 0\<close> is \<open>(im1 & b) != 0\<close>.
\<close>

definition is_sat_or_interp :: "int \<Rightarrow> bool" where
  "is_sat_or_interp v \<longleftrightarrow> (v AND BADPIX_SATURATE) \<noteq> 0 \<or> (v AND BADPIX_INTERP) \<noteq> 0"

definition is_bright_star :: "int \<Rightarrow> bool" where
  "is_bright_star v \<longleftrightarrow> (v AND BADPIX_STAR) \<noteq> 0"

definition not_other_bits :: "int \<Rightarrow> int \<Rightarrow> bool" where
  "not_other_bits msk v \<longleftrightarrow> (v AND msk) = 0"

text \<open>Lines 1090 to 1107: \<open>q = numpy.where(...)\<close>, \<open>im1[:,:] = 0\<close>, \<open>im1[q] = 1\<close>.\<close>

definition maskbits_reduce :: "int \<Rightarrow> int array2 \<Rightarrow> int array2" where
  "maskbits_reduce msk im1 =
     (let q = where_pairs (\<lambda>v. is_sat_or_interp v \<and> is_bright_star v \<and> not_other_bits msk v) im1
      in set_pairs (fill2 0 im1) q 1)"

text \<open>
  The resampling \<open>util.interpolate_image_diffsize\<close> with the two cutouts' centres and
  Jacobian matrices is a parameter \<open>interp\<close>: it maps the reduced source mask to the
  target cutout's grid. \<open>id1\<close> and \<open>id2\<close> are the object's ids in the two MEDS files.
\<close>

definition interpolate_maskbits ::
  "(int array2 \<Rightarrow> int array2) \<Rightarrow> int \<Rightarrow> int \<Rightarrow> int \<Rightarrow> int array2 \<Rightarrow> error + int array2" where
  "interpolate_maskbits interp msk id1 id2 im1 =
     (let im1' = maskbits_reduce msk im1
      in if id1 = id2 then Inr (interp im1') else Inl AssertionError)"

section \<open>Weight zeroing: \<open>Y1DESMEDSImageIO._prop_extra_bitmasks\<close>\<close>

text \<open>
  \<open>numpy.where((bmaski != 0) & (obs.seg == 0))\<close>. The two arrays are combined pixel by
  pixel under numpy's broadcasting rule: the sizes of a dimension agree, or one of them
  is 1; anything else raises \<open>ValueError\<close>.
\<close>

definition bdim :: "nat \<Rightarrow> nat \<Rightarrow> nat option" where
  "bdim a b = (if a = b then Some a else if a = 1 then Some b else if b = 1 then Some a else None)"

definition bidx :: "nat \<Rightarrow> nat \<Rightarrow> nat" where
  "bidx n i = (if n = 1 then 0 else i)"

definition where_and ::
  "('a \<Rightarrow> bool) \<Rightarrow> 'a array2 \<Rightarrow> ('b \<Rightarrow> bool) \<Rightarrow> 'b array2 \<Rightarrow> error + (nat \<times> nat) list" where
  "where_and p a q b =
     (case (bdim (shape0 a) (shape0 b), bdim (shape1 a) (shape1 b)) of
        (Some n0, Some n1) \<Rightarrow>
          Inr (concat (map (\<lambda>i. map (\<lambda>j. (i, j))
                 (filter (\<lambda>j. p (a ! bidx (shape0 a) i ! bidx (shape1 a) j) \<and>
                               q (b ! bidx (shape0 b) i ! bidx (shape1 b) j)) [0..<n1]))
               [0..<n0]))
      | _ \<Rightarrow> Inl ValueError)"

text \<open>\<open>w[q] = 0.0\<close>: an index outside the array raises \<open>IndexError\<close>.\<close>

definition zero_at :: "real array2 \<Rightarrow> (nat \<times> nat) list \<Rightarrow> error + real array2" where
  "zero_at w q =
     (if list_all (\<lambda>p. fst p < shape0 w \<and> snd p < shape1 w) q
      then Inr (set_pairs w q 0) else Inl IndexError)"

text \<open>
  \<open>if hasattr(obs, name): getattr(obs, name)[q] = 0.0\<close>: nothing happens to a missing
  attribute, and item assignment on \<open>None\<close> raises \<open>TypeError\<close>.
\<close>

fun zero_attr :: "real array2 attr \<Rightarrow> (nat \<times> nat) list \<Rightarrow> error + real array2 attr" where
  "zero_attr Absent q = Inr Absent"
| "zero_attr PyNone q = Inl TypeError"
| "zero_attr (Arr w) q = (case zero_at w q of Inl e \<Rightarrow> Inl e | Inr w' \<Rightarrow> Inr (Arr w'))"

text \<open>
  The body of the loop for one observation. \<open>interp\<close> stands for the resampling of the
  band's combined mask from the coadd cutout's grid to the grid of cutout \<open>icut\<close>
  (\<open>bmaski\<close> after the call of \<open>util.interpolate_image_diffsize\<close>).
\<close>

definition prop_extra_bitmasks_obs ::
  "(nat \<Rightarrow> int array2 \<Rightarrow> int array2) \<Rightarrow> int array2 \<Rightarrow> 'p obs \<Rightarrow> error + 'p obs" where
  "prop_extra_bitmasks_obs interp bmask ob =
     (if flags ob = 0 then
        let bmaski = expand_mask (interp (icut ob) bmask) 2 in
        (case where_and (\<lambda>v. v \<noteq> 0) bmaski (\<lambda>s. s = 0) (seg ob) of
          Inl e \<Rightarrow> Inl e
        | Inr q \<Rightarrow>
            if length q > 0 then
              (case zero_attr (weight_raw ob) q of Inl e \<Rightarrow> Inl e | Inr wraw \<Rightarrow>
              (case zero_attr (weight_us ob) q of Inl e \<Rightarrow> Inl e | Inr wus \<Rightarrow>
              (case zero_at (weight ob) q of Inl e \<Rightarrow> Inl e | Inr w \<Rightarrow>
              (case zero_attr (weight_orig ob) q of Inl e \<Rightarrow> Inl e | Inr worig \<Rightarrow>
                 Inr (ob\<lparr>weight := w, weight_raw := wraw, weight_us := wus,
                        weight_orig := worig\<rparr>)))))
            else Inr ob)
      else Inr ob)"

fun prop_obs_list ::
  "(nat \<Rightarrow> int array2 \<Rightarrow> int array2) \<Rightarrow> int array2 \<Rightarrow> 'p obs list \<Rightarrow> error + 'p obs list" where
  "prop_obs_list interp bmask [] = Inr []"
| "prop_obs_list interp bmask (ob # obs_list) =
     (case prop_extra_bitmasks_obs interp bmask ob of Inl e \<Rightarrow> Inl e | Inr ob' \<Rightarrow>
     (case prop_obs_list interp bmask obs_list of Inl e \<Rightarrow> Inl e | Inr r \<Rightarrow> Inr (ob' # r)))"

fun prop_bands ::
  "(nat \<Rightarrow> nat \<Rightarrow> int array2 \<Rightarrow> int array2) \<Rightarrow> int array2 list \<Rightarrow> nat \<Rightarrow> 'p obs list list
     \<Rightarrow> error + 'p obs list list" where
  "prop_bands interp bmasks band [] = Inr []"
| "prop_bands interp bmasks band (obs_list # rest) =
     (if band < length bmasks then
        (case prop_obs_list (interp band) (bmasks ! band) obs_list of Inl e \<Rightarrow> Inl e | Inr l \<Rightarrow>
        (case prop_bands interp bmasks (Suc band) rest of Inl e \<Rightarrow> Inl e | Inr r \<Rightarrow> Inr (l # r)))
      else Inl IndexError)"

definition prop_extra_bitmasks ::
  "(nat \<Rightarrow> nat \<Rightarrow> int array2 \<Rightarrow> int array2) \<Rightarrow> int array2 list \<Rightarrow> 'p obs list list
     \<Rightarrow> error + 'p obs list list" where
  "prop_extra_bitmasks interp bmasks mb_obs_list = prop_bands interp bmasks 0 mb_obs_list"

section \<open>Flux and surface brightness: \<open>SVDESMEDSImageIO._get_band_observations\<close>\<close>

text \<open>\<open>sub in s\<close> on strings.\<close>

fun contains_str :: "string \<Rightarrow> string \<Rightarrow> bool" where
  "contains_str sub [] = (sub = [])"
| "contains_str sub (c # cs) = (take (length sub) (c # cs) = sub \<or> contains_str sub cs)"

text \<open>
  The \<open>try\<close> block and its handler. \<open>obs.set_image(image, update_pixels=False)\<close> stores
  the image; \<open>obs.set_weight(weight)\<close> belongs to ngmix, and \<open>fatal im wt\<close> says
  that it raises \<open>GMixFatalError\<close> for this image and weight. The handler writes
  \<open>weight[0, 0] = 1.0\<close> (an \<open>IndexError\<close> on an array without pixels) and calls
  \<open>set_weight\<close> again, outside any \<open>try\<close>. The result is the weight the observation holds.
\<close>

definition set_image_and_weight ::
  "(real array2 \<Rightarrow> real array2 \<Rightarrow> bool) \<Rightarrow> real array2 \<Rightarrow> real array2 \<Rightarrow> error + real array2" where
  "set_image_and_weight fatal im wt =
     (if fatal im wt then
        (if 0 < shape0 wt \<and> 0 < shape1 wt then
           (let wt' = set2 wt 0 0 1
            in if fatal im wt' then Inl GMixFatalError else Inr wt')
         else Inl IndexError)
      else Inr wt)"

text \<open>
  \<open>if obs.weight_raw is not None: obs.weight_raw /= pixel_scale4\<close>: reading a missing
  attribute raises \<open>AttributeError\<close>.
\<close>

fun scale_attr :: "(real \<Rightarrow> real) \<Rightarrow> real array2 attr \<Rightarrow> error + real array2 attr" where
  "scale_attr f Absent = Inl AttributeError"
| "scale_attr f PyNone = Inr PyNone"
| "scale_attr f (Arr w) = Inr (Arr (amap f w))"

text \<open>
  The loop body of the first branch (surface brightness to flux) and of the second
  (flux to surface brightness). A division by a zero pixel scale is 0 here, where numpy
  gives infinities and NaNs; the theorems below ask for a nonzero scale.
\<close>

definition to_flux_obs :: "(real array2 \<Rightarrow> real array2 \<Rightarrow> bool) \<Rightarrow> 'p obs \<Rightarrow> error + 'p obs" where
  "to_flux_obs fatal ob =
     (if flags ob = 0 then
        (let pixel_scale2 = (scale (jacob ob))\<^sup>2;
             pixel_scale4 = pixel_scale2 * pixel_scale2;
             image' = amap (\<lambda>x. x * pixel_scale2) (image_arr ob);
             weight' = amap (\<lambda>x. x / pixel_scale4) (weight ob)
         in (case set_image_and_weight fatal image' weight' of Inl e \<Rightarrow> Inl e | Inr w \<Rightarrow>
            (case scale_attr (\<lambda>x. x / pixel_scale4) (weight_raw ob) of Inl e \<Rightarrow> Inl e | Inr wraw \<Rightarrow>
            (case scale_attr (\<lambda>x. x / pixel_scale4) (weight_us ob) of Inl e \<Rightarrow> Inl e | Inr wus \<Rightarrow>
               Inr (ob\<lparr>image_arr := image', weight := w, weight_raw := wraw, weight_us := wus\<rparr>)))))
      else Inr ob)"

definition to_sb_obs :: "(real array2 \<Rightarrow> real array2 \<Rightarrow> bool) \<Rightarrow> 'p obs \<Rightarrow> error + 'p obs" where
  "to_sb_obs fatal ob =
     (if flags ob = 0 then
        (let pixel_scale2 = (scale (jacob ob))\<^sup>2;
             pixel_scale4 = pixel_scale2 * pixel_scale2;
             image' = amap (\<lambda>x. x / pixel_scale2) (image_arr ob);
             weight' = amap (\<lambda>x. x * pixel_scale4) (weight ob)
         in (case set_image_and_weight fatal image' weight' of Inl e \<Rightarrow> Inl e | Inr w \<Rightarrow>
            (case scale_attr (\<lambda>x. x * pixel_scale4) (weight_raw ob) of Inl e \<Rightarrow> Inl e | Inr wraw \<Rightarrow>
            (case scale_attr (\<lambda>x. x * pixel_scale4) (weight_us ob) of Inl e \<Rightarrow> Inl e | Inr wus \<Rightarrow>
               Inr (ob\<lparr>image_arr := image', weight := w, weight_raw := wraw, weight_us := wus\<rparr>)))))
      else Inr ob)"

fun map_err :: "('a \<Rightarrow> error + 'b) \<Rightarrow> 'a list \<Rightarrow> error + 'b list" where
  "map_err f [] = Inr []"
| "map_err f (x # xs) =
     (case f x of Inl e \<Rightarrow> Inl e | Inr y \<Rightarrow>
     (case map_err f xs of Inl e \<Rightarrow> Inl e | Inr ys \<Rightarrow> Inr (y # ys)))"

text \<open>
  The argument pair is what the base class's \<open>_get_band_observations\<close> returned:
  the coadd observation list and the single-epoch observation list.
\<close>

definition get_band_observations ::
  "(real array2 \<Rightarrow> real array2 \<Rightarrow> bool) \<Rightarrow> string \<Rightarrow> string \<Rightarrow> 'p obs list \<times> 'p obs list
     \<Rightarrow> error + ('p obs list \<times> 'p obs list)" where
  "get_band_observations fatal imtype fitter_type ols =
     (case ols of (coadd_obs_list, obs_list) \<Rightarrow>
        if imtype = ''surface_brightness'' \<and> contains_str ''galsim'' fitter_type then
          (case map_err (to_flux_obs fatal) coadd_obs_list of Inl e \<Rightarrow> Inl e | Inr c \<Rightarrow>
          (case map_err (to_flux_obs fatal) obs_list of Inl e \<Rightarrow> Inl e | Inr l \<Rightarrow> Inr (c, l)))
        else if imtype \<noteq> ''surface_brightness'' \<and> \<not> contains_str ''galsim'' fitter_type then
          (case map_err (to_sb_obs fatal) coadd_obs_list of Inl e \<Rightarrow> Inl e | Inr c \<Rightarrow>
          (case map_err (to_sb_obs fatal) obs_list of Inl e \<Rightarrow> Inl e | Inr l \<Rightarrow> Inr (c, l)))
        else Inr (coadd_obs_list, obs_list))"

section \<open>PSF trimming: \<open>SVDESMEDSImageIO._trim_psf\<close>\<close>

text \<open>\<open>int(x)\<close> on a float truncates towards zero.\<close>

definition py_int_of_float :: "real \<Rightarrow> int" where
  "py_int_of_float x = (if 0 \<le> x then \<lfloor>x\<rfloor> else \<lceil>x\<rceil>)"

text \<open>
  \<open>xs[a:b]\<close>: a negative bound counts from the end, and both bounds are clipped to the
  length.
\<close>

definition py_slice :: "int \<Rightarrow> int \<Rightarrow> 'a list \<Rightarrow> 'a list" where
  "py_slice a b xs =
     (let n = int (length xs);
          a' = (if a < 0 then max (a + n) 0 else min a n);
          b' = (if b < 0 then max (b + n) 0 else min b n)
      in take (nat (b' - a')) (drop (nat a') xs))"

definition trim_psf ::
  "real \<times> real \<Rightarrow> real array2 \<Rightarrow> real \<times> real \<Rightarrow> real array2 \<times> (real \<times> real)" where
  "trim_psf dims im cen =
     (let rowstart = py_int_of_float (fst cen - fst dims / 2.0 + 0.5);
          rowend = py_int_of_float (fst cen + fst dims / 2.0 + 0.5);
          colstart = py_int_of_float (snd cen - snd dims / 2.0 + 0.5);
          colend = py_int_of_float (snd cen + snd dims / 2.0 + 0.5);
          newim = map (py_slice colstart colend) (py_slice rowstart rowend im);
          newcen = (fst cen - real_of_int rowstart, snd cen - real_of_int rowstart)
      in (newim, newcen))"

section \<open>MEDS files\<close>

text \<open>
  What the code reads from one band's MEDS file: the number of objects, the columns
  \<open>image_flags\<close> and \<open>image_path\<close> of the image-info table (entry 0 is the coadd), and
  the per-object columns \<open>ncutout\<close>, \<open>file_id\<close>, \<open>orig_row\<close> and \<open>orig_col\<close>, indexed by
  object and cutout.
\<close>

record meds =
  msize :: nat
  image_flags :: "int list"
  image_path :: "string list"
  ncutout :: "nat \<Rightarrow> nat"
  file_id :: "nat \<Rightarrow> nat \<Rightarrow> int"
  orig_row :: "nat \<Rightarrow> nat \<Rightarrow> real"
  orig_col :: "nat \<Rightarrow> nat \<Rightarrow> real"

section \<open>Off-chip neighbours: \<open>Y1DESMEDSImageIO._get_offchip_nbr_psf_obs_and_jac\<close>\<close>

type_synonym vec3 = "real \<times> real \<times> real"

definition dot3 :: "vec3 \<Rightarrow> vec3 \<Rightarrow> real" where
  "dot3 a b = (case a of (a1, a2, a3) \<Rightarrow> case b of (b1, b2, b3) \<Rightarrow> a1 * b1 + a2 * b2 + a3 * b3)"

text \<open>
  Step 1c: the neighbour's offset in the tangent plane of the central, in arcseconds.
  \<open>radec_to_unitvecs_ruv\<close> (of \<open>ngmixer.util\<close>) is a parameter.
\<close>

definition nbr_uv ::
  "(real \<Rightarrow> real \<Rightarrow> vec3 \<times> vec3 \<times> vec3) \<Rightarrow> real \<times> real \<Rightarrow> real \<times> real \<Rightarrow> real \<times> real" where
  "nbr_uv radec_to_unitvecs_ruv radec_cen radec_nbr =
     (case radec_to_unitvecs_ruv (fst radec_cen) (snd radec_cen) of (rhat_cen, uhat_cen, vhat_cen) \<Rightarrow>
      case radec_to_unitvecs_ruv (fst radec_nbr) (snd radec_nbr) of (rhat_nbr, uhat_nbr, vhat_nbr) \<Rightarrow>
        (let cosang = dot3 rhat_cen rhat_nbr;
             u_nbr = dot3 rhat_nbr uhat_cen / cosang / pi * 180.0 * 60.0 * 60.0;
             v_nbr = dot3 rhat_nbr vhat_cen / cosang / pi * 180.0 * 60.0 * 60.0
         in (u_nbr, v_nbr)))"

text \<open>
  \<open>numpy.linalg.inv\<close> of the matrix \<open>[[a, b], [c, d]]\<close>, in exact arithmetic; a singular
  matrix raises \<open>LinAlgError\<close>.
\<close>

definition linalg_inv ::
  "real \<Rightarrow> real \<Rightarrow> real \<Rightarrow> real \<Rightarrow> error + (real \<times> real \<times> real \<times> real)" where
  "linalg_inv a b c d =
     (let det = a * d - b * c
      in if det = 0 then Inl LinAlgError
         else Inr (d / det, - b / det, - c / det, a / det))"

text \<open>
  Step 2: \<open>rowcol_nbr = numpy.dot(Jinv, uv_nbr) + numpy.array([row0, col0])\<close>, then
  \<open>J_nbr = J.copy()\<close> and \<open>J_nbr.set_cen(row=rowcol_nbr[0], col=rowcol_nbr[1])\<close>.
\<close>

definition nbr_jacobian :: "jacobian \<Rightarrow> real \<times> real \<Rightarrow> error + jacobian" where
  "nbr_jacobian J uv_nbr =
     (case linalg_inv (dudrow J) (dudcol J) (dvdrow J) (dvdcol J) of
        Inl e \<Rightarrow> Inl e
      | Inr (i00, i01, i10, i11) \<Rightarrow>
          (let rowcol_nbr = (i00 * fst uv_nbr + i01 * snd uv_nbr + row0 J,
                             i10 * fst uv_nbr + i11 * snd uv_nbr + col0 J)
           in Inr (J\<lparr>row0 := fst rowcol_nbr, col0 := snd rowcol_nbr\<rparr>)))"

text \<open>
  The whole method for one band. \<open>wcs_transforms\<close> maps a file id to the band's WCS
  (\<open>None\<close> where the file was missing), a WCS being its \<open>image2sky\<close>. The result
  \<open>None\<close> is the early \<open>return None, None\<close>.
\<close>

definition get_offchip_nbr_psf_obs_and_jac ::
  "(int \<rightharpoonup> (real \<Rightarrow> real \<Rightarrow> real \<times> real) option) \<Rightarrow> (real \<Rightarrow> real \<Rightarrow> vec3 \<times> vec3 \<times> vec3)
     \<Rightarrow> meds \<Rightarrow> nat \<Rightarrow> 'p obs \<Rightarrow> nat \<Rightarrow> error + ('p \<times> jacobian) option" where
  "get_offchip_nbr_psf_obs_and_jac wcs_transforms radec_to_unitvecs_ruv m cen_mindex cen_obs nbr_mindex =
     (if ncutout m nbr_mindex = 0 then Inr None
      else if file_id m cen_mindex 0 \<noteq> file_id m nbr_mindex 0 then Inl AssertionError
      else
        (case wcs_transforms (file_id m cen_mindex 0) of
           None \<Rightarrow> Inl KeyError
         | Some None \<Rightarrow> Inl AttributeError
         | Some (Some image2sky) \<Rightarrow>
             (let radec_cen = image2sky (orig_col m cen_mindex 0 + 1.0) (orig_row m cen_mindex 0 + 1.0);
                  radec_nbr = image2sky (orig_col m nbr_mindex 0 + 1.0) (orig_row m nbr_mindex 0 + 1.0);
                  uv_nbr = nbr_uv radec_to_unitvecs_ruv radec_cen radec_nbr
              in (case nbr_jacobian (jacob cen_obs) uv_nbr of
                    Inl e \<Rightarrow> Inl e
                  | Inr J_nbr \<Rightarrow> Inr (Some (psf cen_obs, J_nbr))))))"

section \<open>The PIFF wrapper: \<open>PIFFWrapper\<close>\<close>

text \<open>
  \<open>piff_obj\<close> is the model read by the PIFF library and \<open>draw\<close> its drawing method, a
  parameter. The keys of \<open>center_cache\<close> are what \<open>_get_center_cache_key\<close> returns: a
  string, or Python's \<open>None\<close>.
\<close>

record 'g piff_wrapper =
  piff_obj :: 'g
  filename :: string
  wstamp_size :: int
  center_cache :: "string option \<rightharpoonup> real \<times> real"

text \<open>
  \<open>_get_center_cache_key\<close> formats the key (\<open>fmt\<close> stands for \<open>'%.16g-%.16g' % (row, col)\<close>)
  and ends without a \<open>return\<close> statement: the caller gets \<open>None\<close>.
\<close>

definition get_center_cache_key :: "(real \<Rightarrow> real \<Rightarrow> string) \<Rightarrow> real \<Rightarrow> real \<Rightarrow> string option" where
  "get_center_cache_key fmt row col = (let key = fmt row col in None)"

definition cache_center ::
  "(real \<Rightarrow> real \<Rightarrow> string) \<Rightarrow> 'g piff_wrapper \<Rightarrow> real \<Rightarrow> real \<Rightarrow> real array2 \<Rightarrow> 'g piff_wrapper" where
  "cache_center fmt w row col im =
     (let key = get_center_cache_key fmt row col;
          cen = ((real (shape0 im) - 1.0) / 2.0, (real (shape1 im) - 1.0) / 2.0)
      in w\<lparr>center_cache := (center_cache w)(key \<mapsto> cen)\<rparr>)"

definition get_rec ::
  "(real \<Rightarrow> real \<Rightarrow> string) \<Rightarrow> ('g \<Rightarrow> int \<Rightarrow> int \<Rightarrow> int \<Rightarrow> real array2) \<Rightarrow> 'g piff_wrapper
     \<Rightarrow> real \<Rightarrow> real \<Rightarrow> real array2 \<times> 'g piff_wrapper" where
  "get_rec fmt draw w row col =
     (let gsim = draw (piff_obj w) (py_int_of_float (col + 0.5)) (py_int_of_float (row + 0.5))
                   (wstamp_size w);
          im = amap (\<lambda>v. v * (1.0 / sum_list (map sum_list gsim))) gsim
      in (im, cache_center fmt w row col im))"

definition get_center ::
  "(real \<Rightarrow> real \<Rightarrow> string) \<Rightarrow> ('g \<Rightarrow> int \<Rightarrow> int \<Rightarrow> int \<Rightarrow> real array2) \<Rightarrow> 'g piff_wrapper
     \<Rightarrow> real \<Rightarrow> real \<Rightarrow> error + ((real \<times> real) \<times> 'g piff_wrapper)" where
  "get_center fmt draw w row col =
     (let key = get_center_cache_key fmt row col;
          w' = (if center_cache w key = None then snd (get_rec fmt draw w row col) else w)
      in (case center_cache w' key of None \<Rightarrow> Inl KeyError | Some cen \<Rightarrow> Inr (cen, w')))"

section \<open>Loading PIFF models: \<open>SVDESMEDSImageIO._get_piff_object\<close>\<close>

text \<open>The configuration entries the modelled methods read.\<close>

record conf =
  image_flags2check :: int
  fit_coadd_galaxy :: bool
  replacement_flags :: "string option"
  psf_type :: string
  piff_run :: string
  allow_missing :: bool
  stamp_size :: int

text \<open>
  The world outside the program: the file system (\<open>os.path.exists\<close>), the environment,
  the summary file name of an exposure (\<open>files.get_piff_exp_summary_file\<close>), the rows
  of a summary file's \<open>info\<close> extension (\<open>fitsio.read\<close>), Python's \<open>int\<close> on strings
  (\<open>None\<close> for a \<open>ValueError\<close>) and \<open>piff.read\<close>.
\<close>

record piff_info =
  ccdnum :: int
  flag :: int
  piff_file :: string

record 'g sys =
  path_exists :: "string \<Rightarrow> bool"
  environ :: "string \<rightharpoonup> string"
  get_piff_exp_summary_file :: "string \<Rightarrow> int \<Rightarrow> string"
  fitsio_read_info :: "string \<Rightarrow> piff_info list"
  py_int :: "string \<Rightarrow> int option"
  piff_read :: "string \<Rightarrow> error + 'g"

text \<open>\<open>s.split(c)\<close>, \<open>c.join(parts)\<close>, \<open>os.path.basename\<close> and list indexing.\<close>

fun split_on :: "char \<Rightarrow> string \<Rightarrow> string list" where
  "split_on c [] = [[]]"
| "split_on c (x # xs) =
     (if x = c then [] # split_on c xs
      else (case split_on c xs of [] \<Rightarrow> [[x]] | w # ws \<Rightarrow> (x # w) # ws))"

fun join_with :: "string \<Rightarrow> string list \<Rightarrow> string" where
  "join_with sep [] = []"
| "join_with sep [x] = x"
| "join_with sep (x # y # ys) = x @ sep @ join_with sep (y # ys)"

definition basename :: "string \<Rightarrow> string" where
  "basename p = last (split_on CHR ''/'' p)"

definition nth_err :: "'a list \<Rightarrow> nat \<Rightarrow> error + 'a" where
  "nth_err xs i = (if i < length xs then Inr (xs ! i) else Inl IndexError)"

text \<open>\<open>Y3DESMEDSImageIO._get_expccd_and_key\<close>.\<close>

definition get_expccd_and_key :: "string \<Rightarrow> error + (string \<times> string \<times> string)" where
  "get_expccd_and_key impath =
     (let bname = basename impath;
          fs = split_on CHR ''_'' bname
      in if take 3 bname = ''DES'' then
           (case nth_err fs 2 of Inl e \<Rightarrow> Inl e | Inr expname \<Rightarrow>
           (case nth_err fs 4 of Inl e \<Rightarrow> Inl e | Inr c \<Rightarrow>
              Inr (expname, drop 1 c, expname @ ''-'' @ drop 1 c)))
         else
           (case nth_err fs 0 of Inl e \<Rightarrow> Inl e | Inr expname \<Rightarrow>
           (case nth_err fs 2 of Inl e \<Rightarrow> Inl e | Inr c \<Rightarrow>
              Inr (expname, drop 1 c, expname @ ''-'' @ drop 1 c))))"

text \<open>\<open>_read_piff_exp_info\<close>: the result \<open>None\<close> is the tolerated missing summary file.\<close>

definition read_piff_exp_info :: "'g sys \<Rightarrow> conf \<Rightarrow> string \<Rightarrow> error + piff_info list option" where
  "read_piff_exp_info sy cf expname =
     (case py_int sy (drop 1 expname) of
        None \<Rightarrow> Inl ValueError
      | Some expnum \<Rightarrow>
          (let fname = get_piff_exp_summary_file sy (piff_run cf) expnum
           in if \<not> path_exists sy fname then
                (if allow_missing cf then Inr None
                 else Inl (RuntimeError (''Missing piff exposure: '' @ fname)))
              else Inr (Some (fitsio_read_info sy fname))))"

text \<open>
  \<open>_get_piff_info\<close>, with the dictionary \<open>self._piff_info\<close> passed in and returned. The
  row returned is the first one whose \<open>ccdnum\<close> matches.
\<close>

type_synonym piff_cache = "string \<rightharpoonup> piff_info list option"

definition find_ccd :: "'g sys \<Rightarrow> string \<Rightarrow> string \<Rightarrow> piff_info list option \<Rightarrow> error + piff_info option" where
  "find_ccd sy expname ccd expinfo =
     (case expinfo of
        None \<Rightarrow> Inr None
      | Some rows \<Rightarrow>
          (case py_int sy ccd of
             None \<Rightarrow> Inl ValueError
           | Some n \<Rightarrow>
               (case filter (\<lambda>r. ccdnum r = n) rows of
                  [] \<Rightarrow> Inl (RuntimeError (''piff info for '' @ expname @ '' '' @ ccd @ '' not found''))
                | r # _ \<Rightarrow> Inr (Some r))))"

definition get_piff_info ::
  "'g sys \<Rightarrow> conf \<Rightarrow> piff_cache \<Rightarrow> string \<Rightarrow> string \<Rightarrow> error + (piff_info option \<times> piff_cache)" where
  "get_piff_info sy cf all_info expname ccd =
     (case (case all_info expname of
              None \<Rightarrow> (case read_piff_exp_info sy cf expname of
                          Inl e \<Rightarrow> Inl e
                        | Inr v \<Rightarrow> Inr (all_info(expname \<mapsto> v)))
            | Some _ \<Rightarrow> Inr all_info) of
        Inl e \<Rightarrow> Inl e
      | Inr all_info' \<Rightarrow>
          (case all_info' expname of
             None \<Rightarrow> Inl KeyError
           | Some expinfo \<Rightarrow>
               (case find_ccd sy expname ccd expinfo of
                  Inl e \<Rightarrow> Inl e
                | Inr info \<Rightarrow> Inr (info, all_info'))))"

text \<open>\<open>_replace_piff_dir\<close> and \<open>_get_piff_path\<close>.\<close>

definition replace_piff_dir :: "'g sys \<Rightarrow> string \<Rightarrow> error + string" where
  "replace_piff_dir sy path =
     (case environ sy ''PIFF_DATA_DIR'' of
        None \<Rightarrow> Inl KeyError
      | Some edir \<Rightarrow>
          (let parts = split_on CHR ''/'' path;
               paths = drop (length parts - 3) parts
           in Inr (join_with ''/'' (edir # paths))))"

definition get_piff_path :: "'g sys \<Rightarrow> piff_info \<Rightarrow> error + string" where
  "get_piff_path sy info = replace_piff_dir sy (piff_file info)"

definition PIFFWrapper :: "'g \<Rightarrow> string \<Rightarrow> int \<Rightarrow> 'g piff_wrapper" where
  "PIFFWrapper g psf_path stamp =
     \<lparr>piff_obj = g, filename = psf_path, wstamp_size = stamp, center_cache = Map.empty\<rparr>"

text \<open>\<open>_get_piff_object\<close>: the PSF object (or \<open>None\<close>), the flags, and the cache.\<close>

definition get_piff_object ::
  "'g sys \<Rightarrow> conf \<Rightarrow> piff_cache \<Rightarrow> string
     \<Rightarrow> error + (('g piff_wrapper option \<times> int) \<times> piff_cache)" where
  "get_piff_object sy cf all_info impath =
     (case get_expccd_and_key impath of
        Inl e \<Rightarrow> Inl e
      | Inr (expname, ccd, key) \<Rightarrow>
          (case get_piff_info sy cf all_info expname ccd of
             Inl e \<Rightarrow> Inl e
           | Inr (info, all_info') \<Rightarrow>
               (case info of
                  None \<Rightarrow> Inr ((None, PSF_IN_BLACKLIST), all_info')
                | Some i \<Rightarrow>
                    if flag i \<noteq> 0 \<or> ccdnum i = 31 then Inr ((None, PSF_IN_BLACKLIST), all_info')
                    else
                      (case get_piff_path sy i of
                         Inl e \<Rightarrow> Inl e
                       | Inr psf_path \<Rightarrow>
                           if \<not> path_exists sy psf_path
                           then Inl (MissingDataError (''missing psf file: '' @ psf_path))
                           else
                             (case piff_read sy psf_path of
                                Inl e \<Rightarrow> Inl e
                              | Inr g \<Rightarrow>
                                  Inr ((Some (PIFFWrapper g psf_path (stamp_size cf)), 0),
                                       all_info'))))))"

section \<open>Image flags: \<open>SVDESMEDSImageIO._load_meds_files\<close>\<close>

text \<open>
  The flags are \<open>i8\<close> values, embedded in \<open>int\<close>. \<open>image_flags[1:] = vals\<close> needs \<open>vals\<close>
  to have the slice's length, or length 1 (broadcast); otherwise numpy raises \<open>ValueError\<close>.
\<close>

definition assign_tail :: "int list \<Rightarrow> int list \<Rightarrow> error + int list" where
  "assign_tail fl vals =
     (if length vals = length fl - 1 then Inr (take 1 fl @ vals)
      else if length vals = 1 then Inr (take 1 fl @ replicate (length fl - 1) (hd vals))
      else Inl ValueError)"

text \<open>
  The reduction of the cutouts' flags to zero or \<open>IMAGE_FLAGS_SET\<close>: a copy of
  \<open>image_flags[1:]\<close>, the indices \<open>w\<close> where a checked bit is set, the copy zeroed and
  set at \<open>w\<close>, then copied back.
\<close>

definition reduce_flags :: "int \<Rightarrow> int list \<Rightarrow> int list" where
  "reduce_flags check fl =
     (let cimage_flags = drop 1 fl;
          w = filter (\<lambda>i. (cimage_flags ! i AND check) \<noteq> 0) [0..<length cimage_flags];
          zeroed = map (\<lambda>_. 0) cimage_flags;
          reduced = (if length w > 0 then fold (\<lambda>i c. c[i := IMAGE_FLAGS_SET]) w zeroed else zeroed)
      in take 1 fl @ reduced)"

text \<open>
  One band. \<open>get_flags_multi\<close> is \<open>CombinedImageFlags.get_flags_multi(filenames, default)\<close>
  of \<open>ngmixer.imageio.util\<close>, a parameter.
\<close>

definition load_band_flags ::
  "conf \<Rightarrow> (string list \<Rightarrow> int \<Rightarrow> int list) \<Rightarrow> meds \<Rightarrow> error + int list" where
  "load_band_flags cf get_flags_multi m =
     (case (if replacement_flags cf \<noteq> None \<and> length (image_flags m) > 1
            then assign_tail (image_flags m)
                   (get_flags_multi (drop 1 (image_path m)) (image_flags2check cf))
            else Inr (image_flags m)) of
        Inl e \<Rightarrow> Inl e
      | Inr fl \<Rightarrow> Inr (reduce_flags (image_flags2check cf) fl))"

fun load_meds_loop ::
  "conf \<Rightarrow> (string list \<Rightarrow> int \<Rightarrow> int list) \<Rightarrow> nat \<Rightarrow> nat \<Rightarrow> meds list \<Rightarrow> error + int list list" where
  "load_meds_loop cf gfm nobj_tot i [] = Inr []"
| "load_meds_loop cf gfm nobj_tot i (medsi # rest) =
     (if i \<noteq> 0 \<and> msize medsi \<noteq> nobj_tot then Inl ValueError
      else
        (case load_band_flags cf gfm medsi of
           Inl e \<Rightarrow> Inl e
         | Inr fl \<Rightarrow>
             (case load_meds_loop cf gfm (if i = 0 then msize medsi else nobj_tot) (Suc i) rest of
                Inl e \<Rightarrow> Inl e
              | Inr fls \<Rightarrow> Inr (fl # fls))))"

text \<open>
  The result is \<open>self.all_image_flags\<close>. \<open>verify_meds\<close> (of \<open>ngmixer.imageio.medsio\<close>) is a
  parameter that gives the error it raises, if any.
\<close>

definition load_meds_files ::
  "conf \<Rightarrow> (string list \<Rightarrow> int \<Rightarrow> int list) \<Rightarrow> (meds list \<Rightarrow> error option) \<Rightarrow> meds list
     \<Rightarrow> error + int list list" where
  "load_meds_files cf gfm verify_meds meds_list =
     (case load_meds_loop cf gfm 0 0 meds_list of
        Inl e \<Rightarrow> Inl e
      | Inr all_image_flags \<Rightarrow>
          (case verify_meds meds_list of
             Some e \<Rightarrow> Inl e
           | None \<Rightarrow> Inr all_image_flags))"

section \<open>PSF objects of a band: \<open>SVDESMEDSImageIO._get_psf_objects\<close>\<close>

text \<open>\<open>s.strip()\<close> removes ASCII white space at both ends.\<close>

definition is_space :: "char \<Rightarrow> bool" where
  "is_space c \<longleftrightarrow> c \<in> set [CHR '' '', CHR 0x09, CHR 0x0A, CHR 0x0B, CHR 0x0C, CHR 0x0D]"

definition strip :: "string \<Rightarrow> string" where
  "strip s = rev (dropWhile is_space (rev (dropWhile is_space s)))"

datatype ('g, 'x) psf_object = PIFF "'g piff_wrapper" | PSFEX 'x

text \<open>
  The loop state: the band's flags \<open>self.all_image_flags[band]\<close>, the PIFF summary cache
  and the list built so far. \<open>get_psfex_object i impath\<close> stands for the PSFEx branch
  (the path lookup for image \<open>i\<close>, \<open>os.path.expandvars\<close> and \<open>_get_psfex_object\<close>).
\<close>

type_synonym ('g, 'x) psf_state = "int list \<times> piff_cache \<times> ('g, 'x) psf_object option list"

definition psf_objects_step ::
  "'g sys \<Rightarrow> conf \<Rightarrow> (nat \<Rightarrow> string \<Rightarrow> error + ('x option \<times> int)) \<Rightarrow> string list \<Rightarrow> nat
     \<Rightarrow> ('g, 'x) psf_state \<Rightarrow> error + ('g, 'x) psf_state" where
  "psf_objects_step sy cf get_psfex_object paths i st =
     (case st of (fl, all_info, psf_list) \<Rightarrow>
       (case nth_err fl i of
          Inl e \<Rightarrow> Inl e
        | Inr iflags \<Rightarrow>
            if i = 0 \<and> \<not> fit_coadd_galaxy cf then
              Inr (fl[i := (fl ! i) OR 1], all_info, psf_list @ [None])
            else if (iflags AND image_flags2check cf) = 0 then
              (case nth_err paths i of
                 Inl e \<Rightarrow> Inl e
               | Inr p \<Rightarrow>
                   (case (if psf_type cf = ''piff''
                          then (case get_piff_object sy cf all_info (strip p) of
                                  Inl e \<Rightarrow> Inl e
                                | Inr ((po, pf), ai) \<Rightarrow> Inr ((map_option PIFF po, pf), ai))
                          else (case get_psfex_object i (strip p) of
                                  Inl e \<Rightarrow> Inl e
                                | Inr (po, pf) \<Rightarrow> Inr ((map_option PSFEX po, pf), all_info))) of
                      Inl e \<Rightarrow> Inl e
                    | Inr ((psf_obj, psf_flags), all_info') \<Rightarrow>
                        Inr (if psf_flags \<noteq> 0 then fl[i := (fl ! i) OR psf_flags] else fl,
                             all_info', psf_list @ [psf_obj])))
            else Inr (fl, all_info, psf_list @ [None])))"

fun psf_objects_loop ::
  "'g sys \<Rightarrow> conf \<Rightarrow> (nat \<Rightarrow> string \<Rightarrow> error + ('x option \<times> int)) \<Rightarrow> string list \<Rightarrow> nat list
     \<Rightarrow> ('g, 'x) psf_state \<Rightarrow> error + ('g, 'x) psf_state" where
  "psf_objects_loop sy cf gpo paths [] st = Inr st"
| "psf_objects_loop sy cf gpo paths (i # rest) st =
     (case psf_objects_step sy cf gpo paths i st of
        Inl e \<Rightarrow> Inl e
      | Inr st' \<Rightarrow> psf_objects_loop sy cf gpo paths rest st')"

definition get_psf_objects ::
  "'g sys \<Rightarrow> conf \<Rightarrow> (nat \<Rightarrow> string \<Rightarrow> error + ('x option \<times> int)) \<Rightarrow> meds \<Rightarrow> int list
     \<Rightarrow> piff_cache \<Rightarrow> error + ('g, 'x) psf_state" where
  "get_psf_objects sy cf gpo m fl all_info =
     psf_objects_loop sy cf gpo (image_path m) [0..<length (image_path m)] (fl, all_info, [])"

section \<open>Notions used in the proofs\<close>

text \<open>
  \<open>nb n0 n1 p\<close> is the 3 by 3 neighbourhood of the pixel \<open>p\<close>, clipped to an array of
  shape \<open>(n0, n1)\<close>; \<open>ball1\<close> is its union over a set of pixels. \<open>adds n0 n1 f N\<close> says
  that the loop fragment \<open>f\<close> keeps the shape, sets the pixels of \<open>N\<close> to 1, leaves the
  other pixels alone and appends index pairs that make up \<open>N\<close>.
\<close>

definition nb :: "nat \<Rightarrow> nat \<Rightarrow> int \<times> int \<Rightarrow> (int \<times> int) set" where
  "nb n0 n1 p = {(x, y). 0 \<le> x \<and> x < int n0 \<and> 0 \<le> y \<and> y < int n1 \<and> \<bar>x - fst p\<bar> \<le> 1 \<and> \<bar>y - snd p\<bar> \<le> 1}"

definition adds :: "nat \<Rightarrow> nat \<Rightarrow> (('a::one) expand_state \<Rightarrow> 'a expand_state) \<Rightarrow> (int \<times> int) set \<Rightarrow> bool" where
  "adds n0 n1 f N \<longleftrightarrow>
     (\<forall>cb qx qy. rect n0 n1 cb \<and> length qx = length qy \<longrightarrow>
        (case f (cb, qx, qy) of (cb', qx', qy') \<Rightarrow>
           rect n0 n1 cb' \<and> length qx' = length qy' \<and>
           set (zip qx' qy') = set (zip qx qy) \<union> N \<and>
           (\<forall>i<n0. \<forall>j<n1. cb' ! i ! j = (if (int i, int j) \<in> N then 1 else cb ! i ! j))))"

definition ball1 :: "nat \<Rightarrow> nat \<Rightarrow> (int \<times> int) set \<Rightarrow> (int \<times> int) set" where
  "ball1 n0 n1 S = (\<Union>p\<in>S. nb n0 n1 p)"


text \<open>
  \<open>attr_rect\<close> says that a weight attribute, when present, is an array of the given
  shape (and is not \<open>None\<close>); \<open>attr_px\<close> reads one pixel of a present attribute.
\<close>

definition attr_rect :: "nat \<Rightarrow> nat \<Rightarrow> 'a array2 attr \<Rightarrow> bool" where
  "attr_rect n0 n1 x = (case x of Absent \<Rightarrow> True | PyNone \<Rightarrow> False | Arr a \<Rightarrow> rect n0 n1 a)"

definition attr_px :: "'a array2 attr \<Rightarrow> nat \<Rightarrow> nat \<Rightarrow> 'a option" where
  "attr_px x i j = (case x of Arr a \<Rightarrow> Some (a ! i ! j) | _ \<Rightarrow> None)"

text \<open>
  The two conversions in the spec's words, for comparison with the code: an observation
  with zero flags has its image multiplied (divided) by the squared pixel scale and its
  \<open>weight\<close>, \<open>weight_raw\<close> and \<open>weight_us\<close> divided (multiplied) by the fourth power of the
  pixel scale; a flagged observation is left alone.
\<close>

definition flux_scaled :: "'p obs \<Rightarrow> 'p obs" where
  "flux_scaled ob =
     (if flags ob = 0 then
        ob\<lparr>image_arr := amap (\<lambda>x. x * (scale (jacob ob))\<^sup>2) (image_arr ob),
           weight := amap (\<lambda>x. x / ((scale (jacob ob))\<^sup>2 * (scale (jacob ob))\<^sup>2)) (weight ob),
           weight_raw := map_attr (amap (\<lambda>x. x / ((scale (jacob ob))\<^sup>2 * (scale (jacob ob))\<^sup>2))) (weight_raw ob),
           weight_us := map_attr (amap (\<lambda>x. x / ((scale (jacob ob))\<^sup>2 * (scale (jacob ob))\<^sup>2))) (weight_us ob)\<rparr>
      else ob)"

definition sb_scaled :: "'p obs \<Rightarrow> 'p obs" where
  "sb_scaled ob =
     (if flags ob = 0 then
        ob\<lparr>image_arr := amap (\<lambda>x. x / (scale (jacob ob))\<^sup>2) (image_arr ob),
           weight := amap (\<lambda>x. x * ((scale (jacob ob))\<^sup>2 * (scale (jacob ob))\<^sup>2)) (weight ob),
           weight_raw := map_attr (amap (\<lambda>x. x * ((scale (jacob ob))\<^sup>2 * (scale (jacob ob))\<^sup>2))) (weight_raw ob),
           weight_us := map_attr (amap (\<lambda>x. x * ((scale (jacob ob))\<^sup>2 * (scale (jacob ob))\<^sup>2))) (weight_us ob)\<rparr>
      else ob)"

section \<open>Arrays and the dilation loop\<close>

lemma adds_id: "adds n0 n1 (\<lambda>s. s) {}"
  by (simp add: adds_def)

lemma adds_comp:
  assumes "adds n0 n1 f N" and "adds n0 n1 g M"
  shows "adds n0 n1 (g \<circ> f) (N \<union> M)"
  unfolding adds_def
proof (intro allI impI)
  fix cb :: "'a array2" and qx qy :: "int list"
  assume h: "rect n0 n1 cb \<and> length qx = length qy"
  obtain cb1 qx1 qy1 where f: "f (cb, qx, qy) = (cb1, qx1, qy1)" by (cases "f (cb, qx, qy)") auto
  obtain cb2 qx2 qy2 where g: "g (cb1, qx1, qy1) = (cb2, qx2, qy2)" by (cases "g (cb1, qx1, qy1)") auto
  from assms(1) h f have 1: "rect n0 n1 cb1" "length qx1 = length qy1"
     "set (zip qx1 qy1) = set (zip qx qy) \<union> N"
     "\<forall>i<n0. \<forall>j<n1. cb1 ! i ! j = (if (int i, int j) \<in> N then 1 else cb ! i ! j)"
    unfolding adds_def by (force)+
  from assms(2) 1(1,2) g have 2: "rect n0 n1 cb2" "length qx2 = length qy2"
     "set (zip qx2 qy2) = set (zip qx1 qy1) \<union> M"
     "\<forall>i<n0. \<forall>j<n1. cb2 ! i ! j = (if (int i, int j) \<in> M then 1 else cb1 ! i ! j)"
    unfolding adds_def by (force)+
  show "case (g \<circ> f) (cb, qx, qy) of (cb', qx', qy') \<Rightarrow>
           rect n0 n1 cb' \<and> length qx' = length qy' \<and>
           set (zip qx' qy') = set (zip qx qy) \<union> (N \<union> M) \<and>
           (\<forall>i<n0. \<forall>j<n1. cb' ! i ! j = (if (int i, int j) \<in> N \<union> M then 1 else cb ! i ! j))"
    using 1 2 f g by (auto)
qed

lemma adds_fold:
  assumes "\<And>x. x \<in> set xs \<Longrightarrow> adds n0 n1 (f x) (N x)"
  shows "adds n0 n1 (fold f xs) (\<Union>x\<in>set xs. N x)"
  using assms
proof (induction xs rule: rev_induct)
  case Nil
  show ?case using adds_id[of n0 n1] by (simp add: id_def)
next
  case (snoc x xs)
  have a: "adds n0 n1 (fold f xs) (\<Union>x\<in>set xs. N x)" using snoc by simp
  have b: "adds n0 n1 (f x) (N x)" using snoc by simp
  have "(\<Union>x\<in>set (xs @ [x]). N x) = (\<Union>x\<in>set xs. N x) \<union> N x" by auto
  then show ?case using adds_comp[OF a b] by (simp add: comp_def)
qed

lemma rect_iff: "rect n0 n1 m \<longleftrightarrow> length m = n0 \<and> (\<forall>i<n0. length (m ! i) = n1)"
  by (auto simp: rect_def all_set_conv_all_nth)

lemma set2_rect: "rect n0 n1 cb \<Longrightarrow> rect n0 n1 (set2 cb i j v)"
  by (cases "i < length cb") (auto simp: rect_iff set2_def nth_list_update)

lemma set2_get:
  "rect n0 n1 cb \<Longrightarrow> i < n0 \<Longrightarrow> j < n1 \<Longrightarrow> i' < n0 \<Longrightarrow> j' < n1 \<Longrightarrow>
   set2 cb i j v ! i' ! j' = (if i' = i \<and> j' = j then v else cb ! i' ! j')"
  by (auto simp: rect_iff set2_def nth_list_update)

lemma adds_dy:
  assumes "0 \<le> iix" "iix < int n0"
  shows "adds n0 n1 (expand_dy n1 iix iy dy) (if 0 \<le> iy + dy \<and> iy + dy < int n1 then {(iix, iy + dy)} else {})"
proof (cases "0 \<le> iy + dy \<and> iy + dy < int n1")
  case False
  then have "expand_dy n1 iix iy dy = (\<lambda>s::'a expand_state. s)"
    by (auto simp: expand_dy_def Let_def fun_eq_iff)
  moreover have "adds n0 n1 (\<lambda>s::'a expand_state. s) {}" by (rule adds_id)
  ultimately show ?thesis using False by auto
next
  case True
  have iin: "nat iix < n0" "nat (iy + dy) < n1" using assms True by auto
  show ?thesis
    unfolding adds_def
  proof (intro allI impI)
    fix cb :: "'a array2" and qx qy :: "int list"
    assume h: "rect n0 n1 cb \<and> length qx = length qy"
    have g: "\<forall>i<n0. \<forall>j<n1. set2 cb (nat iix) (nat (iy + dy)) 1 ! i ! j =
        (if (int i, int j) \<in> {(iix, iy + dy)} then 1 else cb ! i ! j)"
      using set2_get[of n0 n1 cb "nat iix" "nat (iy+dy)"] h iin assms True by auto
    show "case expand_dy n1 iix iy dy (cb, qx, qy) of (cb', qx', qy') \<Rightarrow>
           rect n0 n1 cb' \<and> length qx' = length qy' \<and>
           set (zip qx' qy') = set (zip qx qy) \<union> (if 0 \<le> iy + dy \<and> iy + dy < int n1 then {(iix, iy + dy)} else {}) \<and>
           (\<forall>i<n0. \<forall>j<n1. cb' ! i ! j = (if (int i, int j) \<in> (if 0 \<le> iy + dy \<and> iy + dy < int n1 then {(iix, iy + dy)} else {}) then 1 else cb ! i ! j))"
      using True h g by (simp add: expand_dy_def Let_def set2_rect)
  qed
qed

lemma adds_fold3:
  assumes "adds n0 n1 (f a) A" and "adds n0 n1 (f b) B" and "adds n0 n1 (f c) C"
  shows "adds n0 n1 (fold f [a, b, c]) (A \<union> B \<union> C)"
proof -
  have "adds n0 n1 (f c \<circ> (f b \<circ> f a)) ((A \<union> B) \<union> C)"
    by (intro adds_comp assms)
  moreover have "fold f [a, b, c] = f c \<circ> (f b \<circ> f a)" by (simp add: fun_eq_iff)
  ultimately show ?thesis by (simp only:)
qed

lemma adds_dx:
  "adds n0 n1 (expand_dx n0 n1 ix iy dx)
     {(x, y). x = ix + dx \<and> 0 \<le> x \<and> x < int n0 \<and> 0 \<le> y \<and> y < int n1 \<and> \<bar>y - iy\<bar> \<le> 1}"
    (is "adds _ _ _ ?N")
proof (cases "0 \<le> ix + dx \<and> ix + dx < int n0")
  case False
  then have "expand_dx n0 n1 ix iy dx = (\<lambda>s::'a expand_state. s)"
    by (auto simp: expand_dx_def Let_def fun_eq_iff)
  moreover have "adds n0 n1 (\<lambda>s::'a expand_state. s) {}" by (rule adds_id)
  moreover have "?N = {}" using False by auto
  ultimately show ?thesis by (simp only:)
next
  case True
  let ?M = "\<lambda>dy. if 0 \<le> iy + dy \<and> iy + dy < int n1 then {(ix + dx, iy + dy)} else {}"
  have e: "expand_dx n0 n1 ix iy dx = (fold (expand_dy n1 (ix + dx) iy) [-1, 0, 1] :: 'a expand_state \<Rightarrow> _)"
    using True by (simp add: expand_dx_def Let_def fun_eq_iff del: fold_simps)
  have "adds n0 n1 (fold (expand_dy n1 (ix + dx) iy) [-1, 0, 1] :: 'a expand_state \<Rightarrow> _)
          (?M (-1) \<union> ?M 0 \<union> ?M 1)"
    by (rule adds_fold3) (use True adds_dy in blast)+
  moreover have "?M (-1) \<union> ?M 0 \<union> ?M 1 = ?N"
  proof (rule set_eqI)
    fix p :: "int \<times> int"
    obtain x y where p: "p = (x, y)" by (cases p)
    show "p \<in> ?M (-1) \<union> ?M 0 \<union> ?M 1 \<longleftrightarrow> p \<in> ?N"
      unfolding p using True by (simp split: if_splits) arith
  qed
  ultimately show ?thesis using e by (simp only:)
qed

lemma adds_pixel: "adds n0 n1 (expand_pixel n0 n1 p) (nb n0 n1 p)"
proof -
  obtain ix iy where p: "p = (ix, iy)" by (cases p)
  let ?M = "\<lambda>dx. {(x, y). x = ix + dx \<and> 0 \<le> x \<and> x < int n0 \<and> 0 \<le> y \<and> y < int n1 \<and> \<bar>y - iy\<bar> \<le> 1}"
  have "adds n0 n1 (fold (expand_dx n0 n1 ix iy) [-1, 0, 1] :: 'a expand_state \<Rightarrow> _)
          (?M (-1) \<union> ?M 0 \<union> ?M 1)"
    by (rule adds_fold3) (rule adds_dx)+
  moreover have "?M (-1) \<union> ?M 0 \<union> ?M 1 = nb n0 n1 p"
  proof (rule set_eqI)
    fix q :: "int \<times> int"
    obtain x y where q: "q = (x, y)" by (cases q)
    show "q \<in> ?M (-1) \<union> ?M 0 \<union> ?M 1 \<longleftrightarrow> q \<in> nb n0 n1 p"
      unfolding p q nb_def by simp arith
  qed
  moreover have "expand_pixel n0 n1 p = (fold (expand_dx n0 n1 ix iy) [-1, 0, 1] :: 'a expand_state \<Rightarrow> _)"
    by (simp add: expand_pixel_def p fun_eq_iff del: fold_simps)
  ultimately show ?thesis by (simp only:)
qed

lemma expand_round_spec:
  assumes "rect n0 n1 cb" and "length qx = length qy"
    and "expand_round n0 n1 (cb, qx, qy) = (cb', qx', qy')"
  shows "rect n0 n1 cb'" and "length qx' = length qy'"
    and "set (zip qx' qy') = ball1 n0 n1 (set (zip qx qy))"
    and "\<And>i j. i < n0 \<Longrightarrow> j < n1 \<Longrightarrow>
           cb' ! i ! j = (if (int i, int j) \<in> ball1 n0 n1 (set (zip qx qy)) then 1 else cb ! i ! j)"
proof -
  have a: "adds n0 n1 (fold (expand_pixel n0 n1) (zip qx qy) :: 'a expand_state \<Rightarrow> _)
             (\<Union>p\<in>set (zip qx qy). nb n0 n1 p)"
    by (rule adds_fold) (rule adds_pixel)
  have e: "fold (expand_pixel n0 n1) (zip qx qy) (cb, [], []) = (cb', qx', qy')"
    using assms(3) by (simp add: expand_round_def)
  have r: "rect n0 n1 cb \<and> length ([]::int list) = length ([]::int list)" using assms(1) by simp
  from a[unfolded adds_def, rule_format, OF r] e
  have "rect n0 n1 cb' \<and> length qx' = length qy' \<and>
        set (zip qx' qy') = set (zip ([]::int list) ([]::int list)) \<union> ball1 n0 n1 (set (zip qx qy)) \<and>
        (\<forall>i<n0. \<forall>j<n1. cb' ! i ! j = (if (int i, int j) \<in> ball1 n0 n1 (set (zip qx qy)) then 1 else cb ! i ! j))"
    by (simp add: ball1_def)
  then show "rect n0 n1 cb'" and "length qx' = length qy'"
    and "set (zip qx' qy') = ball1 n0 n1 (set (zip qx qy))"
    and "\<And>i j. i < n0 \<Longrightarrow> j < n1 \<Longrightarrow>
           cb' ! i ! j = (if (int i, int j) \<in> ball1 n0 n1 (set (zip qx qy)) then 1 else cb ! i ! j)"
    by simp_all
qed

lemma set_where_pairs:
  "set (where_pairs p m) = {(i, j). i < length m \<and> j < length (m ! i) \<and> p (m ! i ! j)}"
  by (auto simp: where_pairs_def)

lemma zip_map_same: "zip (map f xs) (map g xs) = map (\<lambda>x. (f x, g x)) xs"
  by (induction xs) simp_all

lemma zip_where2:
  "where2 p m = (qx, qy) \<Longrightarrow>
   length qx = length qy \<and> zip qx qy = map (\<lambda>q. (int (fst q), int (snd q))) (where_pairs p m)"
  by (auto simp: where2_def zip_map_same)

lemma ball1_nb:
  assumes "0 \<le> r" "r < int n0" "0 \<le> c" "c < int n1"
  shows "ball1 n0 n1 (nb n0 n1 (r, c)) =
         {(x, y). 0 \<le> x \<and> x < int n0 \<and> 0 \<le> y \<and> y < int n1 \<and> \<bar>x - r\<bar> \<le> 2 \<and> \<bar>y - c\<bar> \<le> 2}"
proof (rule set_eqI)
  fix q :: "int \<times> int"
  obtain x y where q: "q = (x, y)" by (cases q)
  let ?R = "0 \<le> x \<and> x < int n0 \<and> 0 \<le> y \<and> y < int n1 \<and> \<bar>x - r\<bar> \<le> 2 \<and> \<bar>y - c\<bar> \<le> 2"
  have "q \<in> ball1 n0 n1 (nb n0 n1 (r, c)) \<longleftrightarrow> ?R"
  proof
    assume "q \<in> ball1 n0 n1 (nb n0 n1 (r, c))"
    then obtain x1 y1 where "(x1, y1) \<in> nb n0 n1 (r, c)" "(x, y) \<in> nb n0 n1 (x1, y1)"
      unfolding ball1_def q by auto
    then show ?R unfolding nb_def by simp arith
  next
    assume R: ?R
    define x1 where "x1 = (if x > r then x - 1 else if x < r then x + 1 else x)"
    define y1 where "y1 = (if y > c then y - 1 else if y < c then y + 1 else y)"
    have "(x1, y1) \<in> nb n0 n1 (r, c)"
      using R assms unfolding nb_def x1_def y1_def by (simp; arith)
    moreover have "(x, y) \<in> nb n0 n1 (x1, y1)"
      using R unfolding nb_def x1_def y1_def by (simp; arith)
    ultimately show "q \<in> ball1 n0 n1 (nb n0 n1 (r, c))"
      unfolding ball1_def q by blast
  qed
  then show "q \<in> ball1 n0 n1 (nb n0 n1 (r, c)) \<longleftrightarrow>
             q \<in> {(x, y). 0 \<le> x \<and> x < int n0 \<and> 0 \<le> y \<and> y < int n1 \<and> \<bar>x - r\<bar> \<le> 2 \<and> \<bar>y - c\<bar> \<le> 2}"
    unfolding q by simp
qed

lemma shape_rect: "rect n0 n1 m \<Longrightarrow> 0 < n0 \<Longrightarrow> shape0 m = n0 \<and> shape1 m = n1"
  by (cases m) (auto simp: rect_def shape0_def shape1_def)

lemma expand_rounds_rect:
  "rect n0 n1 cb \<Longrightarrow> length qx = length qy \<Longrightarrow>
   rect n0 n1 (fst (expand_rounds k n0 n1 (cb, qx, qy)))"
proof (induction k arbitrary: cb qx qy)
  case 0
  then show ?case by simp
next
  case (Suc k)
  obtain cb' qx' qy' where r: "expand_round n0 n1 (cb, qx, qy) = (cb', qx', qy')"
    by (cases "expand_round n0 n1 (cb, qx, qy)")
  note s = expand_round_spec[OF Suc.prems(1) Suc.prems(2) r]
  show ?case using Suc.IH[OF s(1) s(2)] by (simp add: r)
qed

lemma expand_mask_rect:
  fixes m :: "('a::zero_neq_one) array2"
  assumes "rect n0 n1 m" and "0 < n0"
  shows "rect n0 n1 (expand_mask m k)"
proof -
  obtain qx qy where w: "where2 (\<lambda>v. v \<noteq> 0) m = (qx, qy)" by (cases "where2 (\<lambda>v. v \<noteq> 0) m")
  have len: "length qx = length qy" using zip_where2[OF w] by simp
  have sh: "shape0 m = n0" "shape1 m = n1" using shape_rect[OF assms] by simp_all
  show ?thesis using expand_rounds_rect[OF assms(1) len, of k] by (simp add: expand_mask_def w sh)
qed

section \<open>Index assignment on arrays\<close>

lemma set2_length: "length (set2 m a b v) = length m"
  by (simp add: set2_def)

lemma set2_row_length: "i < length m \<Longrightarrow> length (set2 m a b v ! i) = length (m ! i)"
  by (cases "i = a") (simp_all add: set2_def)

lemma set2_nth:
  "i < length m \<Longrightarrow> j < length (m ! i) \<Longrightarrow>
   set2 m a b v ! i ! j = (if i = a \<and> j = b then v else m ! i ! j)"
  by (cases "i = a"; cases "j = b") (simp_all add: set2_def)

lemma set_pairs_shape:
  "length (set_pairs m q v) = length m \<and>
   (\<forall>i<length m. length (set_pairs m q v ! i) = length (m ! i))"
proof (induction q arbitrary: m)
  case Nil
  show ?case by (simp add: set_pairs_def)
next
  case (Cons p q)
  have e: "set_pairs m (p # q) v = set_pairs (set2 m (fst p) (snd p) v) q v"
    by (simp add: set_pairs_def)
  show ?case unfolding e using Cons[of "set2 m (fst p) (snd p) v"]
    by (simp add: set2_length set2_row_length)
qed

lemma set_pairs_nth:
  "i < length m \<Longrightarrow> j < length (m ! i) \<Longrightarrow>
   set_pairs m q v ! i ! j = (if (i, j) \<in> set q then v else m ! i ! j)"
proof (induction q arbitrary: m)
  case Nil
  show ?case by (simp add: set_pairs_def)
next
  case (Cons p q)
  have e: "set_pairs m (p # q) v = set_pairs (set2 m (fst p) (snd p) v) q v"
    by (simp add: set_pairs_def)
  have "set_pairs (set2 m (fst p) (snd p) v) q v ! i ! j =
        (if (i, j) \<in> set q then v else set2 m (fst p) (snd p) v ! i ! j)"
    using Cons.prems by (intro Cons.IH) (simp_all add: set2_length set2_row_length)
  then show ?case unfolding e using Cons.prems
    by (cases p) (auto simp: set2_nth)
qed

lemma fill2_shape:
  "length (fill2 v m) = length m \<and> (\<forall>i<length m. length (fill2 v m ! i) = length (m ! i))"
  by (simp add: fill2_def)

lemma fill2_nth: "i < length m \<Longrightarrow> j < length (m ! i) \<Longrightarrow> fill2 v m ! i ! j = v"
  by (simp add: fill2_def)

lemma badpix_values:
  "BADPIX_SATURATE = 2" "BADPIX_INTERP = 4" "BADPIX_STAR = 32"
  by (simp_all add: BADPIX_SATURATE_def BADPIX_INTERP_def BADPIX_STAR_def badpix_def
        DESY3_BADPIX_MAP_def)

section \<open>Pixel selection and zeroing\<close>

lemma bidx_less: "i < n \<Longrightarrow> bidx n i = i"
  by (auto simp: bidx_def)

lemma where_and_rect:
  assumes "rect n0 n1 a" and "rect n0 n1 b" and "0 < n0"
  shows "\<exists>q. where_and p a pb b = Inr q \<and>
             set q = {(i, j). i < n0 \<and> j < n1 \<and> p (a ! i ! j) \<and> pb (b ! i ! j)}"
proof -
  have sa: "shape0 a = n0" "shape1 a = n1" using shape_rect[OF assms(1,3)] by simp_all
  have sb: "shape0 b = n0" "shape1 b = n1" using shape_rect[OF assms(2,3)] by simp_all
  let ?q = "concat (map (\<lambda>i. map (\<lambda>j. (i, j))
                 (filter (\<lambda>j. p (a ! bidx n0 i ! bidx n1 j) \<and> pb (b ! bidx n0 i ! bidx n1 j)) [0..<n1]))
               [0..<n0])"
  have "where_and p a pb b = Inr ?q"
    by (simp add: where_and_def sa sb bdim_def)
  moreover have "set ?q = {(i, j). i < n0 \<and> j < n1 \<and> p (a ! i ! j) \<and> pb (b ! i ! j)}"
    by (auto simp: bidx_less)
  ultimately show ?thesis by blast
qed

lemma zero_at_rect:
  assumes "rect n0 n1 w" and "0 < n0" and "\<forall>p\<in>set q. fst p < n0 \<and> snd p < n1"
  shows "zero_at w q = Inr (set_pairs w q 0)"
proof -
  have s: "shape0 w = n0" "shape1 w = n1" using shape_rect[OF assms(1,2)] by simp_all
  show ?thesis using assms(3) by (simp add: zero_at_def s list_all_iff)
qed

lemma set_pairs_rect: "rect n0 n1 w \<Longrightarrow> rect n0 n1 (set_pairs w q v)"
  using set_pairs_shape[of w q v] by (simp add: rect_iff)

lemma set_pairs_rect_nth:
  "rect n0 n1 w \<Longrightarrow> i < n0 \<Longrightarrow> j < n1 \<Longrightarrow>
   set_pairs w q v ! i ! j = (if (i, j) \<in> set q then v else w ! i ! j)"
  by (rule set_pairs_nth) (simp_all add: rect_iff)

lemma zero_attr_rect:
  assumes "attr_rect n0 n1 x" and "0 < n0" and "\<forall>p\<in>set q. fst p < n0 \<and> snd p < n1"
  shows "\<exists>x'. zero_attr x q = Inr x' \<and> attr_rect n0 n1 x' \<and>
           (\<forall>i<n0. \<forall>j<n1. attr_px x' i j =
               (if (i, j) \<in> set q then map_option (\<lambda>_. 0) (attr_px x i j) else attr_px x i j))"
proof (cases x)
  case Absent
  then show ?thesis by (simp add: attr_rect_def attr_px_def)
next
  case PyNone
  then show ?thesis using assms(1) by (simp add: attr_rect_def)
next
  case (Arr w)
  then have r: "rect n0 n1 w" using assms(1) by (simp add: attr_rect_def)
  have z: "zero_at w q = Inr (set_pairs w q 0)" by (rule zero_at_rect[OF r assms(2,3)])
  show ?thesis unfolding Arr
    by (simp add: z attr_rect_def attr_px_def set_pairs_rect[OF r] set_pairs_rect_nth[OF r])
qed

section \<open>Slices\<close>

lemma py_slice_in_range:
  assumes "0 \<le> a" and "a \<le> b" and "b \<le> int (length xs)"
  shows "py_slice a b xs = take (nat (b - a)) (drop (nat a) xs)"
    and "length (py_slice a b xs) = nat (b - a)"
    and "\<And>i. i < nat (b - a) \<Longrightarrow> py_slice a b xs ! i = xs ! (nat a + i)"
proof -
  show e: "py_slice a b xs = take (nat (b - a)) (drop (nat a) xs)"
    using assms by (simp add: py_slice_def Let_def min_def)
  show "length (py_slice a b xs) = nat (b - a)"
    unfolding e using assms by simp
  show "\<And>i. i < nat (b - a) \<Longrightarrow> py_slice a b xs ! i = xs ! (nat a + i)"
    unfolding e using assms by simp
qed

section \<open>The inverse of a Jacobian matrix\<close>

lemma nbr_jacobian_invertible:
  assumes "dudrow J * dvdcol J - dudcol J * dvdrow J \<noteq> 0"
  shows "nbr_jacobian J (du, dv) =
           Inr (J\<lparr>row0 := (dvdcol J * du - dudcol J * dv) / (dudrow J * dvdcol J - dudcol J * dvdrow J) + row0 J,
                  col0 := (dudrow J * dv - dvdrow J * du) / (dudrow J * dvdcol J - dudcol J * dvdrow J) + col0 J\<rparr>)"
  using assms
  by (simp add: nbr_jacobian_def linalg_inv_def Let_def diff_divide_distrib add_divide_distrib)

lemma inverse_2x2_applies:
  fixes a b c d :: real
  assumes "a * d - b * c \<noteq> 0"
  shows "a * ((d * u - b * v) / (a * d - b * c)) + b * ((a * v - c * u) / (a * d - b * c)) = u"
    and "c * ((d * u - b * v) / (a * d - b * c)) + d * ((a * v - c * u) / (a * d - b * c)) = v"
proof -
  let ?D = "a * d - b * c"
  have "a * ((d * u - b * v) / ?D) + b * ((a * v - c * u) / ?D) = (?D * u) / ?D"
    by (simp add: add_divide_distrib[symmetric] algebra_simps)
  then show "a * ((d * u - b * v) / ?D) + b * ((a * v - c * u) / ?D) = u"
    using assms by simp
  have "c * ((d * u - b * v) / ?D) + d * ((a * v - c * u) / ?D) = (?D * v) / ?D"
    by (simp add: add_divide_distrib[symmetric] algebra_simps)
  then show "c * ((d * u - b * v) / ?D) + d * ((a * v - c * u) / ?D) = v"
    using assms by simp
qed

section \<open>The two conversions, observation by observation\<close>

lemma scale_attr_present: "x \<noteq> Absent \<Longrightarrow> scale_attr f x = Inr (map_attr (amap f) x)"
  by (cases x) simp_all

lemma amap_amap: "amap f (amap g m) = amap (\<lambda>x. f (g x)) m"
  by (simp add: amap_def comp_def)

lemma amap_ident: "amap (\<lambda>x. x) m = m"
  by (simp add: amap_def map_idI)

lemma map_attr_amap_amap: "map_attr (amap f) (map_attr (amap g) x) = map_attr (amap (\<lambda>v. f (g v))) x"
  by (cases x) (simp_all add: amap_amap)

lemma map_attr_amap_ident: "map_attr (amap (\<lambda>x. x)) x = x"
  by (cases x) (simp_all add: amap_ident)

lemma map_attr_Absent_iff: "map_attr f x = Absent \<longleftrightarrow> x = Absent"
  by (cases x) simp_all

lemma to_flux_obs_plain:
  assumes "flags ob = 0 \<longrightarrow>
             \<not> fatal (amap (\<lambda>x. x * (scale (jacob ob))\<^sup>2) (image_arr ob))
                      (amap (\<lambda>x. x / ((scale (jacob ob))\<^sup>2 * (scale (jacob ob))\<^sup>2)) (weight ob)) \<and>
             weight_raw ob \<noteq> Absent \<and> weight_us ob \<noteq> Absent"
  shows "to_flux_obs fatal ob = Inr (flux_scaled ob)"
  using assms
  by (simp add: to_flux_obs_def flux_scaled_def Let_def set_image_and_weight_def scale_attr_present)

lemma to_sb_obs_plain:
  assumes "flags ob = 0 \<longrightarrow>
             \<not> fatal (amap (\<lambda>x. x / (scale (jacob ob))\<^sup>2) (image_arr ob))
                      (amap (\<lambda>x. x * ((scale (jacob ob))\<^sup>2 * (scale (jacob ob))\<^sup>2)) (weight ob)) \<and>
             weight_raw ob \<noteq> Absent \<and> weight_us ob \<noteq> Absent"
  shows "to_sb_obs fatal ob = Inr (sb_scaled ob)"
  using assms
  by (simp add: to_sb_obs_def sb_scaled_def Let_def set_image_and_weight_def scale_attr_present)

lemma sb_scaled_flux_scaled:
  assumes "flags ob = 0 \<longrightarrow> scale (jacob ob) \<noteq> 0"
  shows "sb_scaled (flux_scaled ob) = ob"
proof (cases "flags ob = 0")
  case False
  then show ?thesis by (simp add: sb_scaled_def flux_scaled_def)
next
  case True
  then have s: "scale (jacob ob) \<noteq> 0" using assms by simp
  show ?thesis using True s
    by (simp add: sb_scaled_def flux_scaled_def amap_amap map_attr_amap_amap amap_ident map_attr_amap_ident)
qed

lemma flux_scaled_sb_scaled:
  assumes "flags ob = 0 \<longrightarrow> scale (jacob ob) \<noteq> 0"
  shows "flux_scaled (sb_scaled ob) = ob"
proof (cases "flags ob = 0")
  case False
  then show ?thesis by (simp add: sb_scaled_def flux_scaled_def)
next
  case True
  then have s: "scale (jacob ob) \<noteq> 0" using assms by simp
  show ?thesis using True s
    by (simp add: sb_scaled_def flux_scaled_def amap_amap map_attr_amap_amap amap_ident map_attr_amap_ident)
qed

lemma map_err_all: "(\<And>x. x \<in> set xs \<Longrightarrow> f x = Inr (g x)) \<Longrightarrow> map_err f xs = Inr (map g xs)"
  by (induction xs) simp_all

lemma to_sb_obs_after_flux:
  assumes "flags ob = 0 \<longrightarrow> scale (jacob ob) \<noteq> 0 \<and> weight_raw ob \<noteq> Absent \<and>
             weight_us ob \<noteq> Absent \<and> \<not> fatal (image_arr ob) (weight ob)"
  shows "to_sb_obs fatal (flux_scaled ob) = Inr ob"
proof -
  have "to_sb_obs fatal (flux_scaled ob) = Inr (sb_scaled (flux_scaled ob))"
  proof (rule to_sb_obs_plain, rule impI)
    assume f: "flags (flux_scaled ob) = 0"
    then have f0: "flags ob = 0" by (simp add: flux_scaled_def split: if_splits)
    then have s: "scale (jacob ob) \<noteq> 0" and a: "weight_raw ob \<noteq> Absent" "weight_us ob \<noteq> Absent"
      and nf: "\<not> fatal (image_arr ob) (weight ob)" using assms by simp_all
    show "\<not> fatal (amap (\<lambda>x. x / (scale (jacob (flux_scaled ob)))\<^sup>2) (image_arr (flux_scaled ob)))
              (amap (\<lambda>x. x * ((scale (jacob (flux_scaled ob)))\<^sup>2 * (scale (jacob (flux_scaled ob)))\<^sup>2))
                 (weight (flux_scaled ob))) \<and>
          weight_raw (flux_scaled ob) \<noteq> Absent \<and> weight_us (flux_scaled ob) \<noteq> Absent"
      using f0 s a nf
      by (simp add: flux_scaled_def amap_amap amap_ident map_attr_Absent_iff)
  qed
  moreover have "sb_scaled (flux_scaled ob) = ob"
    using assms by (intro sb_scaled_flux_scaled) simp
  ultimately show ?thesis by simp
qed

lemma to_flux_obs_after_sb:
  assumes "flags ob = 0 \<longrightarrow> scale (jacob ob) \<noteq> 0 \<and> weight_raw ob \<noteq> Absent \<and>
             weight_us ob \<noteq> Absent \<and> \<not> fatal (image_arr ob) (weight ob)"
  shows "to_flux_obs fatal (sb_scaled ob) = Inr ob"
proof -
  have "to_flux_obs fatal (sb_scaled ob) = Inr (flux_scaled (sb_scaled ob))"
  proof (rule to_flux_obs_plain, rule impI)
    assume f: "flags (sb_scaled ob) = 0"
    then have f0: "flags ob = 0" by (simp add: sb_scaled_def split: if_splits)
    then have s: "scale (jacob ob) \<noteq> 0" and a: "weight_raw ob \<noteq> Absent" "weight_us ob \<noteq> Absent"
      and nf: "\<not> fatal (image_arr ob) (weight ob)" using assms by simp_all
    show "\<not> fatal (amap (\<lambda>x. x * (scale (jacob (sb_scaled ob)))\<^sup>2) (image_arr (sb_scaled ob)))
              (amap (\<lambda>x. x / ((scale (jacob (sb_scaled ob)))\<^sup>2 * (scale (jacob (sb_scaled ob)))\<^sup>2))
                 (weight (sb_scaled ob))) \<and>
          weight_raw (sb_scaled ob) \<noteq> Absent \<and> weight_us (sb_scaled ob) \<noteq> Absent"
      using f0 s a nf
      by (simp add: sb_scaled_def amap_amap amap_ident map_attr_Absent_iff)
  qed
  moreover have "flux_scaled (sb_scaled ob) = ob"
    using assms by (intro flux_scaled_sb_scaled) simp
  ultimately show ?thesis by simp
qed

lemma amap_shape: "shape0 (amap f m) = shape0 m \<and> shape1 (amap f m) = shape1 m"
  by (cases m) (simp_all add: amap_def shape0_def shape1_def)

lemma amap_rect: "rect n0 n1 m \<Longrightarrow> rect n0 n1 (amap f m)"
  by (auto simp: rect_def amap_def)

lemma amap_nth: "rect n0 n1 m \<Longrightarrow> i < n0 \<Longrightarrow> j < n1 \<Longrightarrow> amap f m ! i ! j = f (m ! i ! j)"
  by (simp add: rect_iff amap_def)

section \<open>The PIFF summary record\<close>

lemma PSF_IN_BLACKLIST_nonzero: "PSF_IN_BLACKLIST \<noteq> 0"
  by (simp add: PSF_IN_BLACKLIST_def)

lemma get_piff_info_None_iff:
  "get_piff_info sy cf all_info expname ccd = Inr (None, ai) \<longleftrightarrow>
     (all_info expname = Some None \<and> ai = all_info) \<or>
     (all_info expname = None \<and> allow_missing cf \<and> ai = all_info(expname \<mapsto> None) \<and>
      (\<exists>expnum. py_int sy (drop 1 expname) = Some expnum \<and>
                \<not> path_exists sy (get_piff_exp_summary_file sy (piff_run cf) expnum)))"
  by (auto simp: get_piff_info_def read_piff_exp_info_def find_ccd_def Let_def
           split: option.splits sum.splits list.splits if_splits)

section \<open>Flag reduction and the PSF loop\<close>

lemma fold_update_length: "length (fold (\<lambda>i c. c[i := v]) w c) = length c"
  by (induction w arbitrary: c) simp_all

lemma fold_update_nth:
  "k < length c \<Longrightarrow> fold (\<lambda>i c. c[i := v]) w c ! k = (if k \<in> set w then v else c ! k)"
proof (induction w arbitrary: c)
  case Nil
  show ?case by simp
next
  case (Cons a w)
  have "fold (\<lambda>i c. c[i := v]) w (c[a := v]) ! k = (if k \<in> set w then v else c[a := v] ! k)"
    using Cons.prems by (intro Cons.IH) simp
  then show ?case using Cons.prems by (auto simp: nth_list_update)
qed

lemma reduce_flags_length: "length (reduce_flags check fl) = length fl"
  by (cases fl) (simp_all add: reduce_flags_def Let_def fold_update_length)

lemma reduce_flags_coadd: "0 < length fl \<Longrightarrow> reduce_flags check fl ! 0 = fl ! 0"
  by (cases fl) (simp_all add: reduce_flags_def Let_def)

lemma reduce_flags_cutout:
  assumes "1 \<le> i" and "i < length fl"
  shows "reduce_flags check fl ! i = (if (fl ! i AND check) \<noteq> 0 then IMAGE_FLAGS_SET else 0)"
proof -
  obtain x xs where fl: "fl = x # xs" using assms(2) by (cases fl) auto
  obtain k where i: "i = Suc k" using assms(1) by (cases i) auto
  have k: "k < length xs" using assms(2) fl i by simp
  let ?w = "filter (\<lambda>i. (xs ! i AND check) \<noteq> 0) [0..<length xs]"
  let ?z = "map (\<lambda>_. 0::int) xs"
  have "(if length ?w > 0 then fold (\<lambda>i c. c[i := IMAGE_FLAGS_SET]) ?w ?z else ?z) ! k
        = fold (\<lambda>i c. c[i := IMAGE_FLAGS_SET]) ?w ?z ! k"
    by (cases "?w = []") simp_all
  also have "\<dots> = (if k \<in> set ?w then IMAGE_FLAGS_SET else ?z ! k)"
    using k by (intro fold_update_nth) simp
  also have "\<dots> = (if (xs ! k AND check) \<noteq> 0 then IMAGE_FLAGS_SET else 0)"
    using k by simp
  finally show ?thesis
    by (simp add: reduce_flags_def Let_def fl i)
qed

lemma assign_tail_props:
  assumes "assign_tail fl vals = Inr r" and "1 < length fl"
  shows "length r = length fl \<and> r ! 0 = fl ! 0"
  using assms by (cases fl) (auto simp: assign_tail_def split: if_splits)

lemma load_band_flags_props:
  assumes "load_band_flags cf gfm m = Inr fl"
  shows "length fl = length (image_flags m)"
    and "0 < length fl \<Longrightarrow> fl ! 0 = image_flags m ! 0"
    and "\<And>i. 1 \<le> i \<Longrightarrow> i < length fl \<Longrightarrow> fl ! i = 0 \<or> fl ! i = IMAGE_FLAGS_SET"
proof -
  obtain fl0 where r: "fl = reduce_flags (image_flags2check cf) fl0"
    and l0: "length fl0 = length (image_flags m)"
    and z0: "0 < length fl0 \<longrightarrow> fl0 ! 0 = image_flags m ! 0"
  proof (cases "replacement_flags cf \<noteq> None \<and> length (image_flags m) > 1")
    case True
    then obtain a where a: "assign_tail (image_flags m)
          (gfm (drop 1 (image_path m)) (image_flags2check cf)) = Inr a"
      and f: "fl = reduce_flags (image_flags2check cf) a"
      using assms by (auto simp: load_band_flags_def split: sum.splits)
    have "length a = length (image_flags m) \<and> a ! 0 = image_flags m ! 0"
      using assign_tail_props[OF a] True by simp
    then show ?thesis using that[OF f] by simp
  next
    case False
    then have "fl = reduce_flags (image_flags2check cf) (image_flags m)"
      using assms by (auto simp: load_band_flags_def)
    then show ?thesis using that by simp
  qed
  show "length fl = length (image_flags m)" by (simp add: r reduce_flags_length l0)
  show "0 < length fl \<Longrightarrow> fl ! 0 = image_flags m ! 0"
    using z0 by (simp add: r reduce_flags_length reduce_flags_coadd)
  show "\<And>i. 1 \<le> i \<Longrightarrow> i < length fl \<Longrightarrow> fl ! i = 0 \<or> fl ! i = IMAGE_FLAGS_SET"
    by (simp add: r reduce_flags_length reduce_flags_cutout)
qed

lemma load_meds_loop_bands:
  "load_meds_loop cf gfm nobj_tot i ms = Inr fls \<Longrightarrow>
   length fls = length ms \<and> (\<forall>b<length ms. load_band_flags cf gfm (ms ! b) = Inr (fls ! b))"
proof (induction ms arbitrary: nobj_tot i fls)
  case Nil
  then show ?case by simp
next
  case (Cons m ms)
  from Cons.prems obtain fl rest where
    fl: "load_band_flags cf gfm m = Inr fl"
    and rest: "load_meds_loop cf gfm (if i = 0 then msize m else nobj_tot) (Suc i) ms = Inr rest"
    and fls: "fls = fl # rest"
    by (auto split: if_splits sum.splits)
  note ih = Cons.IH[OF rest]
  show ?case unfolding fls using ih fl by (auto simp: nth_Cons')
qed

lemma psf_objects_step_props:
  assumes "psf_objects_step sy cf gpo paths i (fl, ai, ps) = Inr (fl', ai', ps')"
  shows "length fl' = length fl" and "i < length fl" and "\<And>k. k \<noteq> i \<Longrightarrow> fl' ! k = fl ! k"
    and "\<exists>x. ps' = ps @ [x]"
  using assms
  by (auto simp: psf_objects_step_def nth_err_def split: if_splits sum.splits prod.splits)

lemma psf_objects_step_coadd:
  assumes "psf_objects_step sy cf gpo paths 0 (fl, ai, ps) = Inr (fl', ai', ps')"
    and "\<not> fit_coadd_galaxy cf"
  shows "fl' = fl[0 := (fl ! 0) OR 1]" and "ps' = ps @ [None]" and "0 < length fl"
  using assms
  by (auto simp: psf_objects_step_def nth_err_def split: if_splits)

lemma psf_objects_loop_props:
  "psf_objects_loop sy cf gpo paths idx (fl, ai, ps) = Inr (fl', ai', ps') \<Longrightarrow> 0 \<notin> set idx \<Longrightarrow>
   length fl' = length fl \<and> fl' ! 0 = fl ! 0 \<and> length ps' = length ps + length idx \<and>
   take (length ps) ps' = ps"
proof (induction idx arbitrary: fl ai ps)
  case Nil
  then show ?case by simp
next
  case (Cons i idx)
  from Cons.prems(1) obtain fl1 ai1 ps1 where
    s: "psf_objects_step sy cf gpo paths i (fl, ai, ps) = Inr (fl1, ai1, ps1)"
    and l: "psf_objects_loop sy cf gpo paths idx (fl1, ai1, ps1) = Inr (fl', ai', ps')"
    by (auto split: sum.splits)
  have i0: "i \<noteq> 0" and n0: "0 \<notin> set idx" using Cons.prems(2) by auto
  note p = psf_objects_step_props[OF s]
  obtain x where x: "ps1 = ps @ [x]" using p(4) by blast
  note ih = Cons.IH[OF l n0]
  have "take (length ps) ps' = take (length ps) (take (length ps1) ps')"
    by (simp add: x min_def)
  also have "\<dots> = ps" using ih by (simp add: x)
  finally show ?case using ih p(1) p(3)[of 0] i0 by (simp add: x)
qed

lemma or_one_nonzero: "(x :: int) OR 1 \<noteq> 0"
proof
  assume "x OR 1 = 0"
  then have "even (x OR 1)" by simp
  then show False by (simp add: even_or_iff)
qed

section \<open>Claim C1: weight zeroing in bitmask propagation\<close>

text \<open>
  C1, as amended. For an observation with zero flags and every pixel of its dilated
  reprojected mask: if the dilated mask is nonzero at the pixel and the segmentation map
  is 0 there (no object claims the pixel), then \<open>weight\<close> and every weight attribute
  present on the observation (\<open>weight_raw\<close>, \<open>weight_us\<close>, \<open>weight_orig\<close>) become exactly 0 at
  the pixel; at every other pixel, in particular wherever the segmentation map is
  nonzero, whether it holds the object's own id or another object's, they keep their
  values whatever the mask is. The arrays are taken to have one common shape, and a
  present attribute to hold an array.
\<close>

theorem prop_extra_bitmasks_obs_pixel:
  fixes ob :: "'p obs"
  assumes "flags ob = 0"
    and "rect n0 n1 (interp (icut ob) bmask)" and "rect n0 n1 (seg ob)" and "rect n0 n1 (weight ob)"
    and "attr_rect n0 n1 (weight_raw ob)" and "attr_rect n0 n1 (weight_us ob)"
    and "attr_rect n0 n1 (weight_orig ob)"
    and "i < n0" and "j < n1"
  shows "\<exists>ob'. prop_extra_bitmasks_obs interp bmask ob = Inr ob' \<and>
           (if expand_mask (interp (icut ob) bmask) 2 ! i ! j \<noteq> 0 \<and> seg ob ! i ! j = 0
            then weight ob' ! i ! j = 0 \<and>
                 attr_px (weight_raw ob') i j = map_option (\<lambda>_. 0) (attr_px (weight_raw ob) i j) \<and>
                 attr_px (weight_us ob') i j = map_option (\<lambda>_. 0) (attr_px (weight_us ob) i j) \<and>
                 attr_px (weight_orig ob') i j = map_option (\<lambda>_. 0) (attr_px (weight_orig ob) i j)
            else weight ob' ! i ! j = weight ob ! i ! j \<and>
                 attr_px (weight_raw ob') i j = attr_px (weight_raw ob) i j \<and>
                 attr_px (weight_us ob') i j = attr_px (weight_us ob) i j \<and>
                 attr_px (weight_orig ob') i j = attr_px (weight_orig ob) i j)"
proof -
  let ?d = "expand_mask (interp (icut ob) bmask) 2"
  have n0: "0 < n0" using assms(8) by simp
  have rd: "rect n0 n1 ?d" by (rule expand_mask_rect[OF assms(2) n0])
  obtain q where q: "where_and (\<lambda>v. v \<noteq> 0) ?d (\<lambda>s. s = 0) (seg ob) = Inr q"
    and sq: "set q = {(i, j). i < n0 \<and> j < n1 \<and> ?d ! i ! j \<noteq> 0 \<and> seg ob ! i ! j = 0}"
    using where_and_rect[OF rd assms(3) n0] by blast
  have inq: "(i, j) \<in> set q \<longleftrightarrow> ?d ! i ! j \<noteq> 0 \<and> seg ob ! i ! j = 0"
    using assms(8,9) by (simp add: sq)
  have bq: "\<forall>p\<in>set q. fst p < n0 \<and> snd p < n1" by (auto simp: sq)
  show ?thesis
  proof (cases "q = []")
    case True
    then have "prop_extra_bitmasks_obs interp bmask ob = Inr ob"
      using assms(1) by (simp add: prop_extra_bitmasks_obs_def q)
    moreover have "\<not> (?d ! i ! j \<noteq> 0 \<and> seg ob ! i ! j = 0)" using inq True by simp
    ultimately show ?thesis by auto
  next
    case False
    obtain wraw where wraw: "zero_attr (weight_raw ob) q = Inr wraw"
      and praw: "\<forall>i<n0. \<forall>j<n1. attr_px wraw i j =
               (if (i, j) \<in> set q then map_option (\<lambda>_. 0) (attr_px (weight_raw ob) i j)
                else attr_px (weight_raw ob) i j)"
      using zero_attr_rect[OF assms(5) n0 bq] by blast
    obtain wus where wus: "zero_attr (weight_us ob) q = Inr wus"
      and pus: "\<forall>i<n0. \<forall>j<n1. attr_px wus i j =
               (if (i, j) \<in> set q then map_option (\<lambda>_. 0) (attr_px (weight_us ob) i j)
                else attr_px (weight_us ob) i j)"
      using zero_attr_rect[OF assms(6) n0 bq] by blast
    obtain worig where worig: "zero_attr (weight_orig ob) q = Inr worig"
      and porig: "\<forall>i<n0. \<forall>j<n1. attr_px worig i j =
               (if (i, j) \<in> set q then map_option (\<lambda>_. 0) (attr_px (weight_orig ob) i j)
                else attr_px (weight_orig ob) i j)"
      using zero_attr_rect[OF assms(7) n0 bq] by blast
    have w: "zero_at (weight ob) q = Inr (set_pairs (weight ob) q 0)"
      by (rule zero_at_rect[OF assms(4) n0 bq])
    have pw: "set_pairs (weight ob) q 0 ! i ! j = (if (i, j) \<in> set q then 0 else weight ob ! i ! j)"
      by (rule set_pairs_rect_nth[OF assms(4,8,9)])
    have res: "prop_extra_bitmasks_obs interp bmask ob =
        Inr (ob\<lparr>weight := set_pairs (weight ob) q 0, weight_raw := wraw, weight_us := wus,
                 weight_orig := worig\<rparr>)"
      using assms(1) False by (simp add: prop_extra_bitmasks_obs_def q wraw wus worig w)
    show ?thesis
      unfolding res using pw praw pus porig assms(8,9) inq by simp
  qed
qed

theorem prop_extra_bitmasks_obs_pixel_witness:
  "flags \<lparr>flags = 0, icut = 1, image_arr = [[1, 1]], weight = [[5, 6]],
      weight_raw = Arr [[3, 4]], weight_us = Absent, weight_orig = Arr [[5, 6]],
      seg = [[0, 7]], jacob = \<lparr>row0 = 0, col0 = 0, dudrow = 1, dudcol = 0, dvdrow = 0, dvdcol = 1, scale = 1\<rparr>,
      psf = ()\<rparr> = 0 \<and>
   rect 1 2 [[1, 0 :: int]] \<and> rect 1 2 [[0, 7 :: int]] \<and> rect 1 2 [[5, 6 :: real]] \<and>
   attr_rect 1 2 (Arr [[3, 4 :: real]]) \<and> attr_rect 1 2 (Absent :: real array2 attr) \<and>
   (\<exists>ob'. prop_extra_bitmasks_obs (\<lambda>_ m. m) [[1, 0]]
      \<lparr>flags = 0, icut = 1, image_arr = [[1, 1]], weight = [[5, 6]],
       weight_raw = Arr [[3, 4]], weight_us = Absent, weight_orig = Arr [[5, 6]],
       seg = [[0, 7]], jacob = \<lparr>row0 = 0, col0 = 0, dudrow = 1, dudcol = 0, dvdrow = 0, dvdcol = 1, scale = 1\<rparr>,
       psf = ()\<rparr> = Inr ob' \<and>
      weight ob' ! 0 ! 0 = 0 \<and> attr_px (weight_raw ob') 0 0 = Some 0 \<and>
      attr_px (weight_us ob') 0 0 = None \<and> attr_px (weight_orig ob') 0 0 = Some 0)"
proof -
  let ?ob = "\<lparr>flags = 0, icut = 1, image_arr = [[1, 1]], weight = [[5, 6]],
      weight_raw = Arr [[3, 4]], weight_us = Absent, weight_orig = Arr [[5, 6]],
      seg = [[0, 7]], jacob = \<lparr>row0 = 0, col0 = 0, dudrow = 1, dudcol = 0, dvdrow = 0, dvdcol = 1, scale = 1\<rparr>,
      psf = ()\<rparr>"
  have h1: "flags ?ob = 0" by simp
  have h2: "rect 1 2 ((\<lambda>_ m. m) (icut ?ob) [[1, 0 :: int]])" by (simp add: rect_def)
  have h3: "rect 1 2 (seg ?ob)" by (simp add: rect_def)
  have h4: "rect 1 2 (weight ?ob)" by (simp add: rect_def)
  have h5: "attr_rect 1 2 (weight_raw ?ob)" by (simp add: attr_rect_def rect_def)
  have h6: "attr_rect 1 2 (weight_us ?ob)" by (simp add: attr_rect_def)
  have h7: "attr_rect 1 2 (weight_orig ?ob)" by (simp add: attr_rect_def rect_def)
  have h8: "(0::nat) < 1" and h9: "(0::nat) < 2" by simp_all
  have d: "expand_mask [[1, 0 :: int]] 2 ! 0 ! 0 \<noteq> 0" by code_simp
  note t = prop_extra_bitmasks_obs_pixel [where ob = ?ob and interp = "\<lambda>_ m. m"
      and bmask = "[[1, 0]]" and ?n0.0 = 1 and ?n1.0 = 2 and i = 0 and j = 0,
      OF h1 h2 h3 h4 h5 h6 h7 h8 h9]
  show ?thesis using t d h2 h3 h4 h5 h6 by (simp add: attr_px_def)
qed

text \<open>
  The claim as first stated tests the segmentation map against the object's own id. The
  code tests it against 0: at a pixel of the dilated mask that another object (id 7, the
  observed object having id 3) claims, the weight stays 6.
\<close>

theorem prop_extra_bitmasks_obs_neighbour_counterexample:
  "prop_extra_bitmasks_obs (\<lambda>_ m. m) [[1, 0]]
      \<lparr>flags = 0, icut = 1, image_arr = [[1, 1]], weight = [[5, 6]],
       weight_raw = Arr [[3, 4]], weight_us = Absent, weight_orig = Arr [[5, 6]],
       seg = [[0, 7]], jacob = \<lparr>row0 = 0, col0 = 0, dudrow = 1, dudcol = 0, dvdrow = 0, dvdcol = 1, scale = 1\<rparr>,
       psf = ()\<rparr>
    = Inr \<lparr>flags = 0, icut = 1, image_arr = [[1, 1]], weight = [[0, 6]],
       weight_raw = Arr [[0, 4]], weight_us = Absent, weight_orig = Arr [[0, 6]],
       seg = [[0, 7]], jacob = \<lparr>row0 = 0, col0 = 0, dudrow = 1, dudcol = 0, dvdrow = 0, dvdcol = 1, scale = 1\<rparr>,
       psf = ()\<rparr> \<and>
   expand_mask [[1, 0 :: int]] 2 ! 0 ! 1 \<noteq> 0 \<and> [[0, 7 :: int]] ! 0 ! 1 \<noteq> 3 \<and>
   [[0, 6 :: real]] ! 0 ! 1 \<noteq> 0"
  by code_simp

section \<open>Claim C2: the centre cache of the PIFF wrapper\<close>

text \<open>
  C2. The claim asks for one cache entry per \<open>(row, col)\<close>, keyed by the 16-digit
  encoding of the two coordinates. \<open>_get_center_cache_key\<close> builds that string and does
  not return it, so every request has the key \<open>None\<close>: after \<open>get_rec(1.0, 2.0)\<close> and
  \<open>get_rec(3.0, 4.0)\<close> on a fresh wrapper the cache has the single key \<open>None\<close>, and
  \<open>get_center(3.0, 4.0)\<close> after \<open>get_rec(1.0, 2.0)\<close> alone finds that entry and leaves the
  wrapper as it is, without drawing at \<open>(3.0, 4.0)\<close>.
\<close>

theorem get_rec_distinct_coordinates_one_cache_entry:
  "get_center_cache_key fmt 1 2 = None \<and> get_center_cache_key fmt 3 4 = None \<and>
   dom (center_cache (snd (get_rec fmt draw
          (snd (get_rec fmt draw
                 \<lparr>piff_obj = g, filename = ''D00243626_i_c30_r2363p01_piff.fits'', wstamp_size = 25,
                   center_cache = Map.empty\<rparr> 1 2)) 3 4))) = {None} \<and>
   map_sum id snd (get_center fmt draw
          (snd (get_rec fmt draw
                 \<lparr>piff_obj = g, filename = ''D00243626_i_c30_r2363p01_piff.fits'', wstamp_size = 25,
                   center_cache = Map.empty\<rparr> 1 2)) 3 4)
     = Inr (snd (get_rec fmt draw
                 \<lparr>piff_obj = g, filename = ''D00243626_i_c30_r2363p01_piff.fits'', wstamp_size = 25,
                   center_cache = Map.empty\<rparr> 1 2))"
  by (simp add: get_center_cache_key_def get_rec_def get_center_def cache_center_def Let_def)

section \<open>Claim C3: off-chip neighbour placement\<close>

text \<open>
  C3. Let the central's Jacobian \<open>J\<close> be invertible and anchored at \<open>(row0, col0)\<close>, and let
  \<open>(du, dv)\<close> be the neighbour's tangent-plane offset that the method computes. When the
  neighbour has cutouts and shares the central's coadd file, whose WCS is loaded, the
  method returns the central observation's own PSF and a Jacobian equal to \<open>J\<close> except
  for its centre \<open>(row, col)\<close>, which is \<open>J\<^sup>-\<^sup>1 (du, dv) + (row0, col0)\<close>: it is given by the
  inverse matrix's entries, and \<open>J\<close> maps \<open>(row - row0, col - col0)\<close> back to \<open>(du, dv)\<close>.
  The arithmetic is exact (real numbers).
\<close>

theorem offchip_nbr_recentred_jacobian:
  fixes cen_obs :: "'p obs"
  assumes "ncutout m nbr_mindex \<noteq> 0"
    and "file_id m cen_mindex 0 = file_id m nbr_mindex 0"
    and "wcs_transforms (file_id m cen_mindex 0) = Some (Some image2sky)"
    and "dudrow (jacob cen_obs) * dvdcol (jacob cen_obs) - dudcol (jacob cen_obs) * dvdrow (jacob cen_obs) \<noteq> 0"
    and "(du, dv) = nbr_uv radec_to_unitvecs_ruv
            (image2sky (orig_col m cen_mindex 0 + 1) (orig_row m cen_mindex 0 + 1))
            (image2sky (orig_col m nbr_mindex 0 + 1) (orig_row m nbr_mindex 0 + 1))"
  shows "\<exists>row col.
           get_offchip_nbr_psf_obs_and_jac wcs_transforms radec_to_unitvecs_ruv m cen_mindex cen_obs nbr_mindex
             = Inr (Some (psf cen_obs, (jacob cen_obs)\<lparr>row0 := row, col0 := col\<rparr>)) \<and>
           row = (dvdcol (jacob cen_obs) * du - dudcol (jacob cen_obs) * dv) /
                 (dudrow (jacob cen_obs) * dvdcol (jacob cen_obs) - dudcol (jacob cen_obs) * dvdrow (jacob cen_obs))
                 + row0 (jacob cen_obs) \<and>
           col = (dudrow (jacob cen_obs) * dv - dvdrow (jacob cen_obs) * du) /
                 (dudrow (jacob cen_obs) * dvdcol (jacob cen_obs) - dudcol (jacob cen_obs) * dvdrow (jacob cen_obs))
                 + col0 (jacob cen_obs) \<and>
           dudrow (jacob cen_obs) * (row - row0 (jacob cen_obs)) +
             dudcol (jacob cen_obs) * (col - col0 (jacob cen_obs)) = du \<and>
           dvdrow (jacob cen_obs) * (row - row0 (jacob cen_obs)) +
             dvdcol (jacob cen_obs) * (col - col0 (jacob cen_obs)) = dv"
proof -
  let ?J = "jacob cen_obs"
  let ?D = "dudrow ?J * dvdcol ?J - dudcol ?J * dvdrow ?J"
  let ?row = "(dvdcol ?J * du - dudcol ?J * dv) / ?D + row0 ?J"
  let ?col = "(dudrow ?J * dv - dvdrow ?J * du) / ?D + col0 ?J"
  have "get_offchip_nbr_psf_obs_and_jac wcs_transforms radec_to_unitvecs_ruv m cen_mindex cen_obs nbr_mindex
          = Inr (Some (psf cen_obs, ?J\<lparr>row0 := ?row, col0 := ?col\<rparr>))"
    using assms(1,2,3)
    by (simp add: get_offchip_nbr_psf_obs_and_jac_def Let_def assms(5)[symmetric]
          nbr_jacobian_invertible[OF assms(4)])
  moreover have "dudrow ?J * (?row - row0 ?J) + dudcol ?J * (?col - col0 ?J) = du"
    using inverse_2x2_applies(1)[OF assms(4), of du dv] by simp
  moreover have "dvdrow ?J * (?row - row0 ?J) + dvdcol ?J * (?col - col0 ?J) = dv"
    using inverse_2x2_applies(2)[OF assms(4), of du dv] by simp
  ultimately show ?thesis by blast
qed

theorem offchip_nbr_recentred_jacobian_witness:
  "ncutout \<lparr>msize = 2, image_flags = [], image_path = [], ncutout = (\<lambda>_. 1), file_id = (\<lambda>_ _. 0),
       orig_row = (\<lambda>i _. if i = 1 then 2 else 0), orig_col = (\<lambda>i _. if i = 1 then 3 else 0)\<rparr> 1 \<noteq> 0 \<and>
   (2::real) * 4 - 0 * 0 \<noteq> 0 \<and>
   get_offchip_nbr_psf_obs_and_jac (Map.empty(0 \<mapsto> Some (\<lambda>x y. (x - 1, y - 1))))
     (\<lambda>ra dec. ((1, ra, dec), (0, 1, 0), (0, 0, 1)))
     \<lparr>msize = 2, image_flags = [], image_path = [], ncutout = (\<lambda>_. 1), file_id = (\<lambda>_ _. 0),
       orig_row = (\<lambda>i _. if i = 1 then 2 else 0), orig_col = (\<lambda>i _. if i = 1 then 3 else 0)\<rparr>
     0
     \<lparr>flags = 0, icut = 1, image_arr = [[1]], weight = [[1]], weight_raw = PyNone, weight_us = PyNone,
       weight_orig = Absent, seg = [[0]],
       jacob = \<lparr>row0 = 10, col0 = 20, dudrow = 2, dudcol = 0, dvdrow = 0, dvdcol = 4, scale = 3\<rparr>,
       psf = ''central psf''\<rparr>
     1
   = Inr (Some (''central psf'',
        \<lparr>row0 = 972000 / pi + 10, col0 = 324000 / pi + 20, dudrow = 2, dudcol = 0, dvdrow = 0,
          dvdcol = 4, scale = 3\<rparr>))"
proof -
  let ?m = "\<lparr>msize = 2, image_flags = [], image_path = [], ncutout = (\<lambda>_. 1), file_id = (\<lambda>_ _. 0),
       orig_row = (\<lambda>i _. if i = 1 then 2 else 0), orig_col = (\<lambda>i _. if i = (1::nat) then 3 else (0::real))\<rparr>"
  let ?ob = "\<lparr>flags = 0, icut = 1, image_arr = [[1]], weight = [[1]], weight_raw = PyNone, weight_us = PyNone,
       weight_orig = Absent, seg = [[0]],
       jacob = \<lparr>row0 = 10, col0 = 20, dudrow = 2, dudcol = 0, dvdrow = 0, dvdcol = 4, scale = 3\<rparr>,
       psf = ''central psf''\<rparr>"
  let ?w = "Map.empty((0::int) \<mapsto> Some (\<lambda>x y. (x - 1, y - (1::real))))"
  let ?r = "\<lambda>ra dec. ((1, ra, dec), (0, 1, 0), (0, 0, 1::real))"
  have h1: "ncutout ?m 1 \<noteq> 0" by simp
  have h2: "file_id ?m 0 0 = file_id ?m 1 0" by simp
  have h3: "?w (file_id ?m 0 0) = Some (Some (\<lambda>x y. (x - 1, y - 1)))" by simp
  have h4: "dudrow (jacob ?ob) * dvdcol (jacob ?ob) - dudcol (jacob ?ob) * dvdrow (jacob ?ob) \<noteq> 0"
    by simp
  have h5: "(1944000 / pi, 1296000 / pi) = nbr_uv ?r
            ((\<lambda>x y. (x - 1, y - 1)) (orig_col ?m 0 0 + 1) (orig_row ?m 0 0 + 1))
            ((\<lambda>x y. (x - 1, y - 1)) (orig_col ?m 1 0 + 1) (orig_row ?m 1 0 + 1))"
    by (simp add: nbr_uv_def dot3_def)
  note t = offchip_nbr_recentred_jacobian [where m = ?m and cen_obs = ?ob and wcs_transforms = ?w
      and radec_to_unitvecs_ruv = ?r and cen_mindex = 0 and nbr_mindex = 1, OF h1 h2 h3 h4 h5]
  show ?thesis using t h1 by simp
qed

section \<open>Claim C4: the mask reduction before reprojection\<close>

text \<open>
  C4. For every pixel of the source bitmask, the reduced mask that \<open>_interpolate_maskbits\<close>
  resamples is 1 at that pixel if and only if the pixel has the SATURATE bit (2) or the
  INTERP bit (4) set, and has the STAR bit (32) set, and has no bit of the ignore mask
  set; otherwise it is 0.
\<close>

theorem maskbits_reduce_pixel:
  assumes "i < length im1" and "j < length (im1 ! i)"
  shows "maskbits_reduce msk im1 ! i ! j =
           (if ((im1 ! i ! j AND 2) \<noteq> 0 \<or> (im1 ! i ! j AND 4) \<noteq> 0) \<and>
               (im1 ! i ! j AND 32) \<noteq> 0 \<and> (im1 ! i ! j AND msk) = 0
            then 1 else 0)"
proof -
  let ?p = "\<lambda>v. is_sat_or_interp v \<and> is_bright_star v \<and> not_other_bits msk v"
  let ?z = "fill2 (0::int) im1"
  have l: "i < length ?z" "j < length (?z ! i)"
    using assms fill2_shape[of "0::int" im1] by simp_all
  have "maskbits_reduce msk im1 ! i ! j =
        (if (i, j) \<in> set (where_pairs ?p im1) then 1 else ?z ! i ! j)"
    unfolding maskbits_reduce_def Let_def by (rule set_pairs_nth[OF l])
  also have "\<dots> = (if ?p (im1 ! i ! j) then 1 else 0)"
    using assms by (simp add: set_where_pairs fill2_nth)
  finally show ?thesis
    by (simp add: is_sat_or_interp_def is_bright_star_def not_other_bits_def badpix_values)
qed

theorem maskbits_reduce_pixel_witness:
  "(0::nat) < length [[34, 38 :: int], [2, 98]] \<and> 1 < length ([[34, 38 :: int], [2, 98]] ! 0) \<and>
   maskbits_reduce 64 [[34, 38], [2, 98]] ! 0 ! 1 = 1 \<and>
   maskbits_reduce 64 [[34, 38], [2, 98]] ! 1 ! 0 = 0 \<and>
   maskbits_reduce 64 [[34, 38], [2, 98]] ! 1 ! 1 = 0"
  using maskbits_reduce_pixel [of 0 "[[34, 38], [2, 98]]" 1 64]
        maskbits_reduce_pixel [of 1 "[[34, 38], [2, 98]]" 0 64]
        maskbits_reduce_pixel [of 1 "[[34, 38], [2, 98]]" 1 64]
  by simp

section \<open>Claim C5: loading a PIFF model\<close>

text \<open>
  C5. For an image path whose name gives the exposure and the detector,
  \<open>_get_piff_object\<close> returns either no PSF object with the flag \<open>PSF_IN_BLACKLIST\<close>, or a PSF
  object with flags 0. It returns the blacklisted pair, without raising, exactly when
  the metadata record is absent (\<open>_get_piff_info\<close> gave \<open>None\<close>), or its \<open>flag\<close> is nonzero, or
  its \<open>ccdnum\<close> is 31. The record is absent exactly when the exposure is cached as absent,
  or is not cached, its summary file does not exist and \<open>allow_missing\<close> is on. A missing
  summary file of an exposure that is not cached raises \<open>RuntimeError\<close> when \<open>allow_missing\<close>
  is off and gives the blacklisted pair, the exposure now cached as absent, when it is on.
  When the record has flag 0 and a detector other than 31 and the model file does not
  exist, \<open>MissingDataError\<close> is raised.
\<close>

theorem get_piff_object_outcomes:
  assumes "get_expccd_and_key impath = Inr (expname, ccd, key)"
  shows "(\<forall>po fl ai. get_piff_object sy cf all_info impath = Inr ((po, fl), ai) \<longrightarrow>
            (fl = PSF_IN_BLACKLIST \<and> po = None) \<or> (fl = 0 \<and> po \<noteq> None)) \<and>
         ((\<exists>ai. get_piff_object sy cf all_info impath = Inr ((None, PSF_IN_BLACKLIST), ai)) \<longleftrightarrow>
            (\<exists>ai. get_piff_info sy cf all_info expname ccd = Inr (None, ai)) \<or>
            (\<exists>i ai. get_piff_info sy cf all_info expname ccd = Inr (Some i, ai) \<and>
                    (flag i \<noteq> 0 \<or> ccdnum i = 31))) \<and>
         (\<forall>ai. get_piff_info sy cf all_info expname ccd = Inr (None, ai) \<longleftrightarrow>
            (all_info expname = Some None \<and> ai = all_info) \<or>
            (all_info expname = None \<and> allow_missing cf \<and> ai = all_info(expname \<mapsto> None) \<and>
             (\<exists>expnum. py_int sy (drop 1 expname) = Some expnum \<and>
                \<not> path_exists sy (get_piff_exp_summary_file sy (piff_run cf) expnum)))) \<and>
         (\<forall>expnum. all_info expname = None \<and> py_int sy (drop 1 expname) = Some expnum \<and>
            \<not> path_exists sy (get_piff_exp_summary_file sy (piff_run cf) expnum) \<longrightarrow>
            (if allow_missing cf
             then get_piff_object sy cf all_info impath
                    = Inr ((None, PSF_IN_BLACKLIST), all_info(expname \<mapsto> None))
             else get_piff_object sy cf all_info impath
                    = Inl (RuntimeError (''Missing piff exposure: '' @
                             get_piff_exp_summary_file sy (piff_run cf) expnum)))) \<and>
         (\<forall>i ai psf_path. get_piff_info sy cf all_info expname ccd = Inr (Some i, ai) \<and>
            flag i = 0 \<and> ccdnum i \<noteq> 31 \<and> get_piff_path sy i = Inr psf_path \<and>
            \<not> path_exists sy psf_path \<longrightarrow>
            get_piff_object sy cf all_info impath
              = Inl (MissingDataError (''missing psf file: '' @ psf_path)))"
proof (intro conjI)
  show "\<forall>po fl ai. get_piff_object sy cf all_info impath = Inr ((po, fl), ai) \<longrightarrow>
            (fl = PSF_IN_BLACKLIST \<and> po = None) \<or> (fl = 0 \<and> po \<noteq> None)"
    by (auto simp: get_piff_object_def assms split: sum.splits option.splits if_splits prod.splits)
  show "(\<exists>ai. get_piff_object sy cf all_info impath = Inr ((None, PSF_IN_BLACKLIST), ai)) \<longleftrightarrow>
            (\<exists>ai. get_piff_info sy cf all_info expname ccd = Inr (None, ai)) \<or>
            (\<exists>i ai. get_piff_info sy cf all_info expname ccd = Inr (Some i, ai) \<and>
                    (flag i \<noteq> 0 \<or> ccdnum i = 31))"
    using PSF_IN_BLACKLIST_nonzero
    by (auto simp: get_piff_object_def assms split: sum.splits option.splits if_splits prod.splits)
  show "\<forall>ai. get_piff_info sy cf all_info expname ccd = Inr (None, ai) \<longleftrightarrow>
            (all_info expname = Some None \<and> ai = all_info) \<or>
            (all_info expname = None \<and> allow_missing cf \<and> ai = all_info(expname \<mapsto> None) \<and>
             (\<exists>expnum. py_int sy (drop 1 expname) = Some expnum \<and>
                \<not> path_exists sy (get_piff_exp_summary_file sy (piff_run cf) expnum)))"
    by (rule allI) (rule get_piff_info_None_iff)
  show "\<forall>expnum. all_info expname = None \<and> py_int sy (drop 1 expname) = Some expnum \<and>
            \<not> path_exists sy (get_piff_exp_summary_file sy (piff_run cf) expnum) \<longrightarrow>
            (if allow_missing cf
             then get_piff_object sy cf all_info impath
                    = Inr ((None, PSF_IN_BLACKLIST), all_info(expname \<mapsto> None))
             else get_piff_object sy cf all_info impath
                    = Inl (RuntimeError (''Missing piff exposure: '' @
                             get_piff_exp_summary_file sy (piff_run cf) expnum)))"
    by (simp add: get_piff_object_def assms get_piff_info_def read_piff_exp_info_def
          find_ccd_def Let_def)
  show "\<forall>i ai psf_path. get_piff_info sy cf all_info expname ccd = Inr (Some i, ai) \<and>
            flag i = 0 \<and> ccdnum i \<noteq> 31 \<and> get_piff_path sy i = Inr psf_path \<and>
            \<not> path_exists sy psf_path \<longrightarrow>
            get_piff_object sy cf all_info impath
              = Inl (MissingDataError (''missing psf file: '' @ psf_path))"
    by (simp add: get_piff_object_def assms)
qed

theorem get_piff_object_outcomes_witness:
  "get_expccd_and_key ''/data/D00243626_i_c30_r2363p01_immasked.fits.fz''
     = Inr (''D00243626'', ''30'', ''D00243626-30'') \<and>
   get_piff_object
     \<lparr>path_exists = (\<lambda>p. p = ''/sum/243626.fits''), environ = [''PIFF_DATA_DIR'' \<mapsto> ''/piff''],
       get_piff_exp_summary_file = (\<lambda>run n. if n = 243626 then ''/sum/243626.fits'' else ''/sum/none.fits''),
       fitsio_read_info = (\<lambda>f. [\<lparr>ccdnum = 31, flag = 0, piff_file = ''/a/b/c/d/e31.fits''\<rparr>,
                                 \<lparr>ccdnum = 30, flag = 0, piff_file = ''/a/b/c/d/e30.fits''\<rparr>]),
       py_int = map_of [(''00243626'', 243626), (''30'', 30)], piff_read = (\<lambda>p. Inr ())\<rparr>
     \<lparr>image_flags2check = 1, fit_coadd_galaxy = False, replacement_flags = None, psf_type = ''piff'',
       piff_run = ''y3a1'', allow_missing = True, stamp_size = 25\<rparr>
     Map.empty ''/data/D00243626_i_c30_r2363p01_immasked.fits.fz''
     = Inl (MissingDataError ''missing psf file: /piff/c/d/e30.fits'') \<and>
   get_piff_object
     \<lparr>path_exists = (\<lambda>p. False), environ = [''PIFF_DATA_DIR'' \<mapsto> ''/piff''],
       get_piff_exp_summary_file = (\<lambda>run n. if n = 243626 then ''/sum/243626.fits'' else ''/sum/none.fits''),
       fitsio_read_info = (\<lambda>f. []),
       py_int = map_of [(''00243626'', 243626), (''30'', 30)], piff_read = (\<lambda>p. Inr ())\<rparr>
     \<lparr>image_flags2check = 1, fit_coadd_galaxy = False, replacement_flags = None, psf_type = ''piff'',
       piff_run = ''y3a1'', allow_missing = True, stamp_size = 25\<rparr>
     Map.empty ''/data/D00243626_i_c30_r2363p01_immasked.fits.fz''
     = Inr ((None, PSF_IN_BLACKLIST), [''D00243626'' \<mapsto> None])"
proof -
  let ?p = "''/data/D00243626_i_c30_r2363p01_immasked.fits.fz''"
  let ?sy = "\<lparr>path_exists = (\<lambda>p. p = ''/sum/243626.fits''), environ = [''PIFF_DATA_DIR'' \<mapsto> ''/piff''],
       get_piff_exp_summary_file = (\<lambda>run n. if n = 243626 then ''/sum/243626.fits'' else ''/sum/none.fits''),
       fitsio_read_info = (\<lambda>f. [\<lparr>ccdnum = 31, flag = 0, piff_file = ''/a/b/c/d/e31.fits''\<rparr>,
                                 \<lparr>ccdnum = 30, flag = 0, piff_file = ''/a/b/c/d/e30.fits''\<rparr>]),
       py_int = map_of [(''00243626'', 243626 :: int), (''30'', 30)], piff_read = (\<lambda>p. Inr ())\<rparr>"
  let ?sy2 = "\<lparr>path_exists = (\<lambda>p. False), environ = [''PIFF_DATA_DIR'' \<mapsto> ''/piff''],
       get_piff_exp_summary_file = (\<lambda>run n. if n = 243626 then ''/sum/243626.fits'' else ''/sum/none.fits''),
       fitsio_read_info = (\<lambda>f. []),
       py_int = map_of [(''00243626'', 243626 :: int), (''30'', 30)], piff_read = (\<lambda>p. Inr ())\<rparr>"
  let ?cf = "\<lparr>image_flags2check = 1, fit_coadd_galaxy = False, replacement_flags = None, psf_type = ''piff'',
       piff_run = ''y3a1'', allow_missing = True, stamp_size = 25\<rparr>"
  let ?i = "\<lparr>ccdnum = 30, flag = 0, piff_file = ''/a/b/c/d/e30.fits''\<rparr>"
  have k: "get_expccd_and_key ?p = Inr (''D00243626'', ''30'', ''D00243626-30'')"
    by (simp add: get_expccd_and_key_def basename_def nth_err_def Let_def)
  have i: "get_piff_info ?sy ?cf Map.empty ''D00243626'' ''30''
             = Inr (Some ?i, [''D00243626'' \<mapsto> Some (fitsio_read_info ?sy ''/sum/243626.fits'')])"
    by (simp add: get_piff_info_def read_piff_exp_info_def find_ccd_def Let_def)
  have pth: "get_piff_path ?sy ?i = Inr ''/piff/c/d/e30.fits''"
    by (simp add: get_piff_path_def replace_piff_dir_def Let_def)
  have ne: "\<not> path_exists ?sy ''/piff/c/d/e30.fits''" by simp
  have a: "get_piff_object ?sy ?cf Map.empty ?p = Inl (MissingDataError ''missing psf file: /piff/c/d/e30.fits'')"
    using get_piff_object_outcomes [OF k, of ?sy ?cf Map.empty] i pth ne by simp
  have m: "(Map.empty :: piff_cache) ''D00243626'' = None \<and>
           py_int ?sy2 (drop 1 ''D00243626'') = Some 243626 \<and>
           \<not> path_exists ?sy2 (get_piff_exp_summary_file ?sy2 (piff_run ?cf) 243626)"
    by simp
  have b: "get_piff_object ?sy2 ?cf Map.empty ?p = Inr ((None, PSF_IN_BLACKLIST), [''D00243626'' \<mapsto> None])"
    using get_piff_object_outcomes [OF k, of ?sy2 ?cf Map.empty] m by simp
  show ?thesis using k a b by blast
qed

section \<open>Claim C6: reduced image flags\<close>

text \<open>
  C6. When \<open>_load_meds_files\<close> has loaded and reduced the flags, every band has one flag
  per image; the flag of every exposure after the coadd is 0 or \<open>IMAGE_FLAGS_SET\<close>, and the
  coadd's entry (index 0) is the raw flag of the image-info table, not reduced. When
  \<open>fit_coadd_galaxy\<close> is off, \<open>_get_psf_objects\<close> sets bit 0 in the coadd's entry, which makes
  it nonzero, and loads no PSF for the coadd.
\<close>

theorem image_flags_reduced_and_coadd_flagged:
  "(\<forall>all_image_flags. load_meds_files cf gfm verify_meds meds_list = Inr all_image_flags \<longrightarrow>
      length all_image_flags = length meds_list \<and>
      (\<forall>b<length meds_list.
         length (all_image_flags ! b) = length (image_flags (meds_list ! b)) \<and>
         (\<forall>i. 1 \<le> i \<and> i < length (all_image_flags ! b) \<longrightarrow>
              all_image_flags ! b ! i = 0 \<or> all_image_flags ! b ! i = IMAGE_FLAGS_SET) \<and>
         (0 < length (all_image_flags ! b) \<longrightarrow>
              all_image_flags ! b ! 0 = image_flags (meds_list ! b) ! 0))) \<and>
   (\<forall>fl' ai' psf_list.
      \<not> fit_coadd_galaxy cf \<and> 0 < length (image_path m) \<and>
      get_psf_objects sy cf gpo m fl ai = Inr (fl', ai', psf_list) \<longrightarrow>
      length fl' = length fl \<and> fl' ! 0 = (fl ! 0) OR 1 \<and> fl' ! 0 \<noteq> 0 \<and>
      length psf_list = length (image_path m) \<and> psf_list ! 0 = None)"
proof -
  have A: "length all_image_flags = length meds_list \<and>
      (\<forall>b<length meds_list.
         length (all_image_flags ! b) = length (image_flags (meds_list ! b)) \<and>
         (\<forall>i. 1 \<le> i \<and> i < length (all_image_flags ! b) \<longrightarrow>
              all_image_flags ! b ! i = 0 \<or> all_image_flags ! b ! i = IMAGE_FLAGS_SET) \<and>
         (0 < length (all_image_flags ! b) \<longrightarrow>
              all_image_flags ! b ! 0 = image_flags (meds_list ! b) ! 0))"
    if a: "load_meds_files cf gfm verify_meds meds_list = Inr all_image_flags" for all_image_flags
  proof -
    from a have l: "load_meds_loop cf gfm 0 0 meds_list = Inr all_image_flags"
      by (auto simp: load_meds_files_def split: sum.splits option.splits)
    note b = load_meds_loop_bands[OF l]
    have "length (all_image_flags ! k) = length (image_flags (meds_list ! k)) \<and>
         (\<forall>i. 1 \<le> i \<and> i < length (all_image_flags ! k) \<longrightarrow>
              all_image_flags ! k ! i = 0 \<or> all_image_flags ! k ! i = IMAGE_FLAGS_SET) \<and>
         (0 < length (all_image_flags ! k) \<longrightarrow>
              all_image_flags ! k ! 0 = image_flags (meds_list ! k) ! 0)"
      if "k < length meds_list" for k
    proof -
      have e: "load_band_flags cf gfm (meds_list ! k) = Inr (all_image_flags ! k)"
        using b that by simp
      note p = load_band_flags_props[OF e]
      show ?thesis using p by blast
    qed
    then show ?thesis using b by blast
  qed
  have B: "length fl' = length fl \<and> fl' ! 0 = (fl ! 0) OR 1 \<and> fl' ! 0 \<noteq> 0 \<and>
      length psf_list = length (image_path m) \<and> psf_list ! 0 = None"
    if h: "\<not> fit_coadd_galaxy cf \<and> 0 < length (image_path m) \<and>
      get_psf_objects sy cf gpo m fl ai = Inr (fl', ai', psf_list)" for fl' ai' psf_list
  proof -
    let ?n = "length (image_path m)"
    have idx: "[0..<?n] = 0 # [1..<?n]" using h by (simp add: upt_conv_Cons)
    from h obtain fl1 ai1 ps1 where
      s: "psf_objects_step sy cf gpo (image_path m) 0 (fl, ai, []) = Inr (fl1, ai1, ps1)"
      and l: "psf_objects_loop sy cf gpo (image_path m) [1..<?n] (fl1, ai1, ps1) = Inr (fl', ai', psf_list)"
      unfolding get_psf_objects_def idx by (auto split: sum.splits)
    have nf: "\<not> fit_coadd_galaxy cf" using h by simp
    note c = psf_objects_step_coadd[OF s nf]
    have n0: "0 \<notin> set [1..<?n]" by simp
    note p = psf_objects_loop_props[OF l n0]
    have f1: "fl1 ! 0 = (fl ! 0) OR 1" using c by simp
    have ps: "ps1 = [None]" using c by simp
    have "take 1 psf_list = [None]" using p ps by simp
    then have p0: "psf_list ! 0 = None"
      by (metis nth_take less_numeral_extra(1) nth_Cons_0)
    have g1: "length fl' = length fl" using p c by simp
    have g2: "fl' ! 0 = (fl ! 0) OR 1" using p f1 by simp
    have g3: "fl' ! 0 \<noteq> 0" using g2 or_one_nonzero by simp
    have g4: "length psf_list = length (image_path m)" using p ps h by simp
    show ?thesis using g1 g2 g3 g4 p0 by blast
  qed
  show ?thesis using A B by blast
qed

theorem image_flags_reduced_and_coadd_flagged_witness:
  "load_meds_files
     \<lparr>image_flags2check = 6, fit_coadd_galaxy = False, replacement_flags = None, psf_type = ''psfex'',
       piff_run = ''y3a1'', allow_missing = False, stamp_size = 25\<rparr>
     (\<lambda>filenames default. []) (\<lambda>ms. None)
     [\<lparr>msize = 3, image_flags = [8, 0, 4, 1],
       image_path = [''coadd.fits'', ''a.fits'', ''b.fits'', ''c.fits''],
       ncutout = (\<lambda>_. 0), file_id = (\<lambda>_ _. 0), orig_row = (\<lambda>_ _. 0), orig_col = (\<lambda>_ _. 0)\<rparr>]
     = Inr [[8, 0, 1, 0]] \<and>
   get_psf_objects
     \<lparr>path_exists = (\<lambda>p. False), environ = Map.empty, get_piff_exp_summary_file = (\<lambda>run n. []),
       fitsio_read_info = (\<lambda>f. []), py_int = (\<lambda>s. None), piff_read = (\<lambda>p. Inr ())\<rparr>
     \<lparr>image_flags2check = 6, fit_coadd_galaxy = False, replacement_flags = None, psf_type = ''psfex'',
       piff_run = ''y3a1'', allow_missing = False, stamp_size = 25\<rparr>
     (\<lambda>i p. Inr (Some p, 0))
     \<lparr>msize = 3, image_flags = [8, 0, 4, 1],
       image_path = [''coadd.fits'', ''a.fits'', ''b.fits'', ''c.fits''],
       ncutout = (\<lambda>_. 0), file_id = (\<lambda>_ _. 0), orig_row = (\<lambda>_ _. 0), orig_col = (\<lambda>_ _. 0)\<rparr>
     [8, 0, 1, 0] Map.empty
     = Inr ([9, 0, 1, 0], Map.empty,
            [None, Some (PSFEX ''a.fits''), Some (PSFEX ''b.fits''), Some (PSFEX ''c.fits'')]) \<and>
   ([[8, 0, 1, 0 :: int]] ! 0 ! 2 = 0 \<or> [[8, 0, 1, 0 :: int]] ! 0 ! 2 = IMAGE_FLAGS_SET) \<and>
   [9, 0, 1, 0 :: int] ! 0 \<noteq> 0"
proof -
  let ?cf = "\<lparr>image_flags2check = 6, fit_coadd_galaxy = False, replacement_flags = None, psf_type = ''psfex'',
       piff_run = ''y3a1'', allow_missing = False, stamp_size = 25\<rparr>"
  let ?m = "\<lparr>msize = 3, image_flags = [8, 0, 4, 1],
       image_path = [''coadd.fits'', ''a.fits'', ''b.fits'', ''c.fits''],
       ncutout = (\<lambda>_. 0), file_id = (\<lambda>_ _. 0), orig_row = (\<lambda>_ _. 0), orig_col = (\<lambda>_ _. 0)\<rparr>"
  let ?sy = "\<lparr>path_exists = (\<lambda>p. False), environ = Map.empty, get_piff_exp_summary_file = (\<lambda>run n. []),
       fitsio_read_info = (\<lambda>f. []), py_int = (\<lambda>s. None), piff_read = (\<lambda>p. Inr ())\<rparr>"
  let ?gfm = "\<lambda>(filenames :: string list) (default :: int). [] :: int list"
  let ?gpo = "\<lambda>(i :: nat) (p :: string). Inr (Some p, 0 :: int) :: error + (string option \<times> int)"
  let ?psfs = "[None, Some (PSFEX ''a.fits''), Some (PSFEX ''b.fits''), Some (PSFEX ''c.fits'')]"
  have e1: "load_meds_files ?cf ?gfm (\<lambda>ms. None) [?m] = Inr [[8, 0, 1, 0]]"
    by (simp add: load_meds_files_def load_band_flags_def reduce_flags_def Let_def
          IMAGE_FLAGS_SET_def upt_conv_Cons)
  have e2: "get_psf_objects ?sy ?cf ?gpo ?m [8, 0, 1, 0] Map.empty = Inr ([9, 0, 1, 0], Map.empty, ?psfs)"
    by (simp add: get_psf_objects_def psf_objects_step_def nth_err_def upt_conv_Cons
          strip_def is_space_def)
  note t = image_flags_reduced_and_coadd_flagged [of ?cf ?gfm "\<lambda>ms. None" "[?m]" ?m ?sy ?gpo
      "[8, 0, 1, 0]" Map.empty]
  have a: "[[8, 0, 1, 0 :: int]] ! 0 ! 2 = 0 \<or> [[8, 0, 1, 0 :: int]] ! 0 ! 2 = IMAGE_FLAGS_SET"
    using t [THEN conjunct1, rule_format, OF e1, THEN conjunct2, rule_format, of 0,
             THEN conjunct2, THEN conjunct1, rule_format, of 2]
    by simp
  have h: "\<not> fit_coadd_galaxy ?cf \<and> 0 < length (image_path ?m) \<and>
      get_psf_objects ?sy ?cf ?gpo ?m [8, 0, 1, 0] Map.empty = Inr ([9, 0, 1, 0], Map.empty, ?psfs)"
    using e2 by simp
  have b: "[9, 0, 1, 0 :: int] ! 0 \<noteq> 0"
    using t [THEN conjunct2, rule_format, OF h] by blast
  show ?thesis using e1 e2 a b by blast
qed

section \<open>Claim C7: flux and surface brightness, there and back\<close>

text \<open>
  C7, as amended. For the observations with zero flags, the conversion to flux multiplies
  the image by the squared pixel scale and divides \<open>weight\<close>, \<open>weight_raw\<close> and \<open>weight_us\<close>
  by the fourth power of the pixel scale, and the conversion to surface brightness does
  the converse (\<open>weight_orig\<close> is not touched, and flagged observations are left as they
  are). When every such observation has a nonzero pixel scale and no fatal error is raised
  while a weight is set, either conversion followed by the other, with the same pixel
  scales, gives back the lists of observations it started from, in exact arithmetic. The
  two weight attributes are taken to exist on the observations.
\<close>

theorem flux_sb_round_trip:
  fixes coadd_obs_list obs_list :: "'p obs list"
  assumes "contains_str ''galsim'' fitter1" and "\<not> contains_str ''galsim'' fitter2"
    and "imtype2 \<noteq> ''surface_brightness''"
    and "\<forall>ob \<in> set coadd_obs_list \<union> set obs_list. flags ob = 0 \<longrightarrow>
           scale (jacob ob) \<noteq> 0 \<and> weight_raw ob \<noteq> Absent \<and> weight_us ob \<noteq> Absent \<and>
           \<not> fatal (image_arr ob) (weight ob) \<and>
           \<not> fatal (amap (\<lambda>x. x * (scale (jacob ob))\<^sup>2) (image_arr ob))
                    (amap (\<lambda>x. x / ((scale (jacob ob))\<^sup>2 * (scale (jacob ob))\<^sup>2)) (weight ob)) \<and>
           \<not> fatal (amap (\<lambda>x. x / (scale (jacob ob))\<^sup>2) (image_arr ob))
                    (amap (\<lambda>x. x * ((scale (jacob ob))\<^sup>2 * (scale (jacob ob))\<^sup>2)) (weight ob))"
  shows "get_band_observations fatal ''surface_brightness'' fitter1 (coadd_obs_list, obs_list)
           = Inr (map flux_scaled coadd_obs_list, map flux_scaled obs_list) \<and>
         get_band_observations fatal imtype2 fitter2 (map flux_scaled coadd_obs_list, map flux_scaled obs_list)
           = Inr (coadd_obs_list, obs_list) \<and>
         get_band_observations fatal imtype2 fitter2 (coadd_obs_list, obs_list)
           = Inr (map sb_scaled coadd_obs_list, map sb_scaled obs_list) \<and>
         get_band_observations fatal ''surface_brightness'' fitter1 (map sb_scaled coadd_obs_list, map sb_scaled obs_list)
           = Inr (coadd_obs_list, obs_list)"
proof -
  have fwd: "map_err (to_flux_obs fatal) xs = Inr (map flux_scaled xs)"
    if "set xs \<subseteq> set coadd_obs_list \<union> set obs_list" for xs
    using that assms(4) by (intro map_err_all to_flux_obs_plain) blast
  have bwd: "map_err (to_sb_obs fatal) xs = Inr (map sb_scaled xs)"
    if "set xs \<subseteq> set coadd_obs_list \<union> set obs_list" for xs
    using that assms(4) by (intro map_err_all to_sb_obs_plain) blast
  have bf: "map_err (to_sb_obs fatal) (map flux_scaled xs) = Inr xs"
    if "set xs \<subseteq> set coadd_obs_list \<union> set obs_list" for xs
  proof -
    have "map_err (to_sb_obs fatal) (map flux_scaled xs) = Inr (map (\<lambda>y. y) xs)"
      using that assms(4)
    proof (induction xs)
      case Nil
      show ?case by simp
    next
      case (Cons x xs)
      have "to_sb_obs fatal (flux_scaled x) = Inr x"
        using Cons.prems by (intro to_sb_obs_after_flux) auto
      then show ?case using Cons by simp
    qed
    then show ?thesis by simp
  qed
  have fb: "map_err (to_flux_obs fatal) (map sb_scaled xs) = Inr xs"
    if "set xs \<subseteq> set coadd_obs_list \<union> set obs_list" for xs
  proof -
    have "map_err (to_flux_obs fatal) (map sb_scaled xs) = Inr (map (\<lambda>y. y) xs)"
      using that assms(4)
    proof (induction xs)
      case Nil
      show ?case by simp
    next
      case (Cons x xs)
      have "to_flux_obs fatal (sb_scaled x) = Inr x"
        using Cons.prems by (intro to_flux_obs_after_sb) auto
      then show ?case using Cons by simp
    qed
    then show ?thesis by simp
  qed
  show ?thesis
    using assms(1,2,3)
    by (simp add: get_band_observations_def fwd bwd bf fb)
qed

theorem flux_sb_round_trip_witness:
  "contains_str ''galsim'' ''galsim-max'' \<and> \<not> contains_str ''galsim'' ''max'' \<and>
   ''flux'' \<noteq> ''surface_brightness'' \<and>
   get_band_observations (\<lambda>im w. list_all (list_all (\<lambda>x. x \<le> 0)) w) ''surface_brightness'' ''galsim-max''
     ([\<lparr>flags = 0, icut = 0, image_arr = [[1, 2]], weight = [[16, 32]], weight_raw = Arr [[16, 0]],
        weight_us = PyNone, weight_orig = Absent, seg = [[1, 0]],
        jacob = \<lparr>row0 = 0, col0 = 0, dudrow = 2, dudcol = 0, dvdrow = 0, dvdcol = 2, scale = 2\<rparr>, psf = ()\<rparr>],
      [\<lparr>flags = 1, icut = 1, image_arr = [[3]], weight = [[0]], weight_raw = Absent,
        weight_us = Absent, weight_orig = Absent, seg = [[0]],
        jacob = \<lparr>row0 = 0, col0 = 0, dudrow = 0, dudcol = 0, dvdrow = 0, dvdcol = 0, scale = 0\<rparr>, psf = ()\<rparr>])
   = Inr ([\<lparr>flags = 0, icut = 0, image_arr = [[4, 8]], weight = [[1, 2]], weight_raw = Arr [[1, 0]],
        weight_us = PyNone, weight_orig = Absent, seg = [[1, 0]],
        jacob = \<lparr>row0 = 0, col0 = 0, dudrow = 2, dudcol = 0, dvdrow = 0, dvdcol = 2, scale = 2\<rparr>, psf = ()\<rparr>],
      [\<lparr>flags = 1, icut = 1, image_arr = [[3]], weight = [[0]], weight_raw = Absent,
        weight_us = Absent, weight_orig = Absent, seg = [[0]],
        jacob = \<lparr>row0 = 0, col0 = 0, dudrow = 0, dudcol = 0, dvdrow = 0, dvdcol = 0, scale = 0\<rparr>, psf = ()\<rparr>]) \<and>
   get_band_observations (\<lambda>im w. list_all (list_all (\<lambda>x. x \<le> 0)) w) ''flux'' ''max''
     ([\<lparr>flags = 0, icut = 0, image_arr = [[4, 8]], weight = [[1, 2]], weight_raw = Arr [[1, 0]],
        weight_us = PyNone, weight_orig = Absent, seg = [[1, 0]],
        jacob = \<lparr>row0 = 0, col0 = 0, dudrow = 2, dudcol = 0, dvdrow = 0, dvdcol = 2, scale = 2\<rparr>, psf = ()\<rparr>],
      [\<lparr>flags = 1, icut = 1, image_arr = [[3]], weight = [[0]], weight_raw = Absent,
        weight_us = Absent, weight_orig = Absent, seg = [[0]],
        jacob = \<lparr>row0 = 0, col0 = 0, dudrow = 0, dudcol = 0, dvdrow = 0, dvdcol = 0, scale = 0\<rparr>, psf = ()\<rparr>])
   = Inr ([\<lparr>flags = 0, icut = 0, image_arr = [[1, 2]], weight = [[16, 32]], weight_raw = Arr [[16, 0]],
        weight_us = PyNone, weight_orig = Absent, seg = [[1, 0]],
        jacob = \<lparr>row0 = 0, col0 = 0, dudrow = 2, dudcol = 0, dvdrow = 0, dvdcol = 2, scale = 2\<rparr>, psf = ()\<rparr>],
      [\<lparr>flags = 1, icut = 1, image_arr = [[3]], weight = [[0]], weight_raw = Absent,
        weight_us = Absent, weight_orig = Absent, seg = [[0]],
        jacob = \<lparr>row0 = 0, col0 = 0, dudrow = 0, dudcol = 0, dvdrow = 0, dvdcol = 0, scale = 0\<rparr>, psf = ()\<rparr>])"
proof -
  let ?F = "\<lambda>(im :: real array2) (w :: real array2). list_all (list_all (\<lambda>x. x \<le> 0)) w"
  let ?a = "\<lparr>flags = 0, icut = 0, image_arr = [[1, 2]], weight = [[16, 32]], weight_raw = Arr [[16, 0]],
        weight_us = PyNone, weight_orig = Absent, seg = [[1, 0]],
        jacob = \<lparr>row0 = 0, col0 = 0, dudrow = 2, dudcol = 0, dvdrow = 0, dvdcol = 2, scale = 2\<rparr>, psf = ()\<rparr>"
  let ?b = "\<lparr>flags = 1, icut = 1, image_arr = [[3]], weight = [[0]], weight_raw = Absent,
        weight_us = Absent, weight_orig = Absent, seg = [[0]],
        jacob = \<lparr>row0 = 0, col0 = 0, dudrow = 0, dudcol = 0, dvdrow = 0, dvdcol = 0, scale = 0\<rparr>, psf = ()\<rparr>"
  have h1: "contains_str ''galsim'' ''galsim-max''" by simp
  have h2: "\<not> contains_str ''galsim'' ''max''" by simp
  have h3: "''flux'' \<noteq> ''surface_brightness''" by simp
  have h4: "\<forall>ob \<in> set [?a] \<union> set [?b]. flags ob = 0 \<longrightarrow>
           scale (jacob ob) \<noteq> 0 \<and> weight_raw ob \<noteq> Absent \<and> weight_us ob \<noteq> Absent \<and>
           \<not> ?F (image_arr ob) (weight ob) \<and>
           \<not> ?F (amap (\<lambda>x. x * (scale (jacob ob))\<^sup>2) (image_arr ob))
                    (amap (\<lambda>x. x / ((scale (jacob ob))\<^sup>2 * (scale (jacob ob))\<^sup>2)) (weight ob)) \<and>
           \<not> ?F (amap (\<lambda>x. x / (scale (jacob ob))\<^sup>2) (image_arr ob))
                    (amap (\<lambda>x. x * ((scale (jacob ob))\<^sup>2 * (scale (jacob ob))\<^sup>2)) (weight ob))"
    by (simp add: amap_def)
  note t = flux_sb_round_trip [where fatal = ?F, OF h1 h2 h3 h4]
  show ?thesis using t h1 h2 by (simp add: flux_scaled_def amap_def)
qed

text \<open>
  Without the proviso on the fatal error the round trip fails. Here setting a weight is
  fatal when no weight is positive, as in ngmix: the weights \<open>[[0, 0]]\<close> are fatal after
  the division, the handler forces pixel \<open>(0, 0)\<close> to 1, and the way back gives
  \<open>[[16, 0]]\<close>.
\<close>

theorem flux_sb_round_trip_fallback_counterexample:
  "get_band_observations (\<lambda>im w. list_all (list_all (\<lambda>x. x \<le> 0)) w) ''surface_brightness'' ''galsim-max''
     ([], [\<lparr>flags = 0, icut = 1, image_arr = [[1, 2]], weight = [[0, 0]], weight_raw = PyNone,
        weight_us = PyNone, weight_orig = Absent, seg = [[1, 0]],
        jacob = \<lparr>row0 = 0, col0 = 0, dudrow = 2, dudcol = 0, dvdrow = 0, dvdcol = 2, scale = 2\<rparr>, psf = ()\<rparr>])
   = Inr ([], [\<lparr>flags = 0, icut = 1, image_arr = [[4, 8]], weight = [[1, 0]], weight_raw = PyNone,
        weight_us = PyNone, weight_orig = Absent, seg = [[1, 0]],
        jacob = \<lparr>row0 = 0, col0 = 0, dudrow = 2, dudcol = 0, dvdrow = 0, dvdcol = 2, scale = 2\<rparr>, psf = ()\<rparr>]) \<and>
   get_band_observations (\<lambda>im w. list_all (list_all (\<lambda>x. x \<le> 0)) w) ''flux'' ''max''
     ([], [\<lparr>flags = 0, icut = 1, image_arr = [[4, 8]], weight = [[1, 0]], weight_raw = PyNone,
        weight_us = PyNone, weight_orig = Absent, seg = [[1, 0]],
        jacob = \<lparr>row0 = 0, col0 = 0, dudrow = 2, dudcol = 0, dvdrow = 0, dvdcol = 2, scale = 2\<rparr>, psf = ()\<rparr>])
   = Inr ([], [\<lparr>flags = 0, icut = 1, image_arr = [[1, 2]], weight = [[16, 0]], weight_raw = PyNone,
        weight_us = PyNone, weight_orig = Absent, seg = [[1, 0]],
        jacob = \<lparr>row0 = 0, col0 = 0, dudrow = 2, dudcol = 0, dvdrow = 0, dvdcol = 2, scale = 2\<rparr>, psf = ()\<rparr>]) \<and>
   [[16, 0]] \<noteq> [[0, 0 :: real]]"
  by (simp add: get_band_observations_def to_flux_obs_def to_sb_obs_def set_image_and_weight_def
        Let_def amap_def shape0_def shape1_def set2_def)

section \<open>Claim C8: one and two rounds of dilation of a single pixel\<close>

text \<open>
  C8. For a mask of shape \<open>(n0, n1)\<close> whose only nonzero pixel is \<open>(r, c)\<close>, one round of
  \<open>_expand_mask\<close> gives a mask of the same shape whose nonzero pixels are exactly the
  pixels of the array at distance at most 1 from \<open>(r, c)\<close> in both coordinates (the 3 by 3
  neighbourhood clipped at the bounds), and two rounds give exactly the pixels at distance
  at most 2 (the clipped 5 by 5 neighbourhood).
\<close>

theorem expand_mask_single_pixel:
  fixes m :: "('a::zero_neq_one) array2"
  assumes "rect n0 n1 m" and "r < n0" and "c < n1" and "m ! r ! c \<noteq> 0"
    and "\<forall>i<n0. \<forall>j<n1. (i, j) \<noteq> (r, c) \<longrightarrow> m ! i ! j = 0"
  shows "rect n0 n1 (expand_mask m 1) \<and> rect n0 n1 (expand_mask m 2) \<and>
         (\<forall>i<n0. \<forall>j<n1. (expand_mask m 1 ! i ! j \<noteq> 0) =
              (\<bar>int i - int r\<bar> \<le> 1 \<and> \<bar>int j - int c\<bar> \<le> 1)) \<and>
         (\<forall>i<n0. \<forall>j<n1. (expand_mask m 2 ! i ! j \<noteq> 0) =
              (\<bar>int i - int r\<bar> \<le> 2 \<and> \<bar>int j - int c\<bar> \<le> 2))"
proof -
  obtain qx qy where w: "where2 (\<lambda>v. v \<noteq> 0) m = (qx, qy)" by (cases "where2 (\<lambda>v. v \<noteq> 0) m")
  have len: "length qx = length qy"
    and z: "zip qx qy = map (\<lambda>q. (int (fst q), int (snd q))) (where_pairs (\<lambda>v. v \<noteq> 0) m)"
    using zip_where2[OF w] by simp_all
  have lm: "length m = n0" "\<And>i. i < n0 \<Longrightarrow> length (m ! i) = n1"
    using assms(1) by (simp_all add: rect_iff)
  have S: "set (zip qx qy) = {(int r, int c)}"
  proof -
    have "\<And>i j. i < length m \<and> j < length (m ! i) \<and> m ! i ! j \<noteq> 0 \<longleftrightarrow> i = r \<and> j = c"
      using assms lm by auto
    then have "set (where_pairs (\<lambda>v. v \<noteq> 0) m) = {(r, c)}"
      unfolding set_where_pairs by auto
    then show ?thesis unfolding z by simp
  qed
  have sh: "shape0 m = n0" "shape1 m = n1" using shape_rect[OF assms(1)] assms(2) by simp_all
  obtain cb1 qx1 qy1 where r1: "expand_round n0 n1 (m, qx, qy) = (cb1, qx1, qy1)"
    by (cases "expand_round n0 n1 (m, qx, qy)")
  obtain cb2 qx2 qy2 where r2: "expand_round n0 n1 (cb1, qx1, qy1) = (cb2, qx2, qy2)"
    by (cases "expand_round n0 n1 (cb1, qx1, qy1)")
  note s1 = expand_round_spec[OF assms(1) len r1]
  note s2 = expand_round_spec[OF s1(1) s1(2) r2]
  have B1: "ball1 n0 n1 {(int r, int c)} = nb n0 n1 (int r, int c)" by (simp add: ball1_def)
  have e1: "expand_mask m 1 = cb1" by (simp add: expand_mask_def w sh r1)
  have e2: "expand_mask m 2 = cb2" by (simp add: expand_mask_def w sh r1 r2 numeral_2_eq_2)
  have p1: "\<And>i j. i < n0 \<Longrightarrow> j < n1 \<Longrightarrow>
      (cb1 ! i ! j \<noteq> 0) = (\<bar>int i - int r\<bar> \<le> 1 \<and> \<bar>int j - int c\<bar> \<le> 1)"
  proof -
    fix i j assume ij: "i < n0" "j < n1"
    have "(int i, int j) \<in> nb n0 n1 (int r, int c) \<longleftrightarrow> \<bar>int i - int r\<bar> \<le> 1 \<and> \<bar>int j - int c\<bar> \<le> 1"
      using ij by (simp add: nb_def)
    moreover have "m ! i ! j = 0" if "\<not> (\<bar>int i - int r\<bar> \<le> 1 \<and> \<bar>int j - int c\<bar> \<le> 1)"
    proof -
      from that have "(i, j) \<noteq> (r, c)" by auto
      then show ?thesis using assms(5) ij by blast
    qed
    ultimately show "(cb1 ! i ! j \<noteq> 0) = (\<bar>int i - int r\<bar> \<le> 1 \<and> \<bar>int j - int c\<bar> \<le> 1)"
      using s1(4)[OF ij] unfolding S B1 by auto
  qed
  have p2: "\<And>i j. i < n0 \<Longrightarrow> j < n1 \<Longrightarrow>
      (cb2 ! i ! j \<noteq> 0) = (\<bar>int i - int r\<bar> \<le> 2 \<and> \<bar>int j - int c\<bar> \<le> 2)"
  proof -
    fix i j assume ij: "i < n0" "j < n1"
    have "ball1 n0 n1 (set (zip qx1 qy1)) =
        {(x, y). 0 \<le> x \<and> x < int n0 \<and> 0 \<le> y \<and> y < int n1 \<and> \<bar>x - int r\<bar> \<le> 2 \<and> \<bar>y - int c\<bar> \<le> 2}"
      unfolding s1(3) S B1 using assms(2,3) by (intro ball1_nb) simp_all
    then have "(int i, int j) \<in> ball1 n0 n1 (set (zip qx1 qy1)) \<longleftrightarrow> \<bar>int i - int r\<bar> \<le> 2 \<and> \<bar>int j - int c\<bar> \<le> 2"
      using ij by simp
    moreover have "\<not> (\<bar>int i - int r\<bar> \<le> 2 \<and> \<bar>int j - int c\<bar> \<le> 2) \<Longrightarrow> cb1 ! i ! j = 0"
      using p1[OF ij] by auto
    ultimately show "(cb2 ! i ! j \<noteq> 0) = (\<bar>int i - int r\<bar> \<le> 2 \<and> \<bar>int j - int c\<bar> \<le> 2)"
      using s2(4)[OF ij] by auto
  qed
  show ?thesis unfolding e1 e2 using s1(1) s2(1) p1 p2 by blast
qed

theorem expand_mask_single_pixel_witness:
  "rect 3 4 [[0,0,0,0],[0,0,0,0],[0,0,0,5::int]] \<and>
   rect 3 4 (expand_mask [[0,0,0,0],[0,0,0,0],[0,0,0,5::int]] 2) \<and>
   expand_mask [[0,0,0,0],[0,0,0,0],[0,0,0,5::int]] 1 ! 1 ! 2 \<noteq> 0 \<and>
   expand_mask [[0,0,0,0],[0,0,0,0],[0,0,0,5::int]] 1 ! 1 ! 1 = 0 \<and>
   expand_mask [[0,0,0,0],[0,0,0,0],[0,0,0,5::int]] 2 ! 0 ! 1 \<noteq> 0 \<and>
   expand_mask [[0,0,0,0],[0,0,0,0],[0,0,0,5::int]] 2 ! 0 ! 0 = 0"
proof -
  let ?m = "[[0,0,0,0],[0,0,0,0],[0,0,0,5::int]]"
  have h1: "rect 3 4 ?m" by (simp add: rect_def)
  have h2: "(2::nat) < 3" and h3: "(3::nat) < 4" by simp_all
  have h4: "?m ! 2 ! 3 \<noteq> 0" by simp
  have h5: "\<forall>i<3. \<forall>j<4. (i, j) \<noteq> (2, 3) \<longrightarrow> ?m ! i ! j = 0"
    by (simp add: numeral_nat less_Suc_eq nth_Cons' all_conj_distrib)
  note t = expand_mask_single_pixel [OF h1 h2 h3 h4 h5]
  have a: "rect 3 4 (expand_mask ?m 2)" using t by blast
  have b: "\<forall>i<3. \<forall>j<4. (expand_mask ?m 1 ! i ! j \<noteq> 0) = (\<bar>int i - int 2\<bar> \<le> 1 \<and> \<bar>int j - int 3\<bar> \<le> 1)"
    using t by blast
  have c: "\<forall>i<3. \<forall>j<4. (expand_mask ?m 2 ! i ! j \<noteq> 0) = (\<bar>int i - int 2\<bar> \<le> 2 \<and> \<bar>int j - int 3\<bar> \<le> 2)"
    using t by blast
  have b1: "expand_mask ?m 1 ! 1 ! 2 \<noteq> 0" using b[rule_format, of 1 2] by simp
  have b2: "expand_mask ?m 1 ! 1 ! 1 = 0" using b[rule_format, of 1 1] by simp
  have c1: "expand_mask ?m 2 ! 0 ! 1 \<noteq> 0" using c[rule_format, of 0 1] by simp
  have c2: "expand_mask ?m 2 ! 0 ! 0 = 0" using c[rule_format, of 0 0] by simp
  show ?thesis using h1 a b1 b2 c1 c2 by blast
qed

section \<open>Claim C9: the fatal error caught during the conversion\<close>

text \<open>
  C9. In either conversion, when setting the converted weight raises the fatal error, the
  error is caught: pixel \<open>(0, 0)\<close> of the converted weight is set to 1.0, the weight is set
  again, and the conversion of the observation goes on to \<open>weight_raw\<close> and \<open>weight_us\<close> and
  returns. The result is the converted observation with that one weight pixel replaced.
  The weight array is taken to have a pixel \<open>(0, 0)\<close>, the second setting to succeed, and
  the two weight attributes to exist.
\<close>

theorem flux_conversion_fatal_error_caught:
  fixes ob :: "'p obs"
  assumes "flags ob = 0" and "rect n0 n1 (weight ob)" and "0 < n0" and "0 < n1"
    and "weight_raw ob \<noteq> Absent" and "weight_us ob \<noteq> Absent"
    and "ps2 = (scale (jacob ob))\<^sup>2" and "ps4 = ps2 * ps2"
  shows "(fatal (amap (\<lambda>x. x * ps2) (image_arr ob)) (amap (\<lambda>x. x / ps4) (weight ob)) \<and>
          \<not> fatal (amap (\<lambda>x. x * ps2) (image_arr ob)) (set2 (amap (\<lambda>x. x / ps4) (weight ob)) 0 0 1) \<longrightarrow>
            (\<exists>ob'. to_flux_obs fatal ob = Inr ob' \<and>
               ob' = (flux_scaled ob)\<lparr>weight := set2 (amap (\<lambda>x. x / ps4) (weight ob)) 0 0 1\<rparr> \<and>
               weight ob' ! 0 ! 0 = 1 \<and>
               (\<forall>i<n0. \<forall>j<n1. (i, j) \<noteq> (0, 0) \<longrightarrow> weight ob' ! i ! j = weight ob ! i ! j / ps4))) \<and>
         (fatal (amap (\<lambda>x. x / ps2) (image_arr ob)) (amap (\<lambda>x. x * ps4) (weight ob)) \<and>
          \<not> fatal (amap (\<lambda>x. x / ps2) (image_arr ob)) (set2 (amap (\<lambda>x. x * ps4) (weight ob)) 0 0 1) \<longrightarrow>
            (\<exists>ob'. to_sb_obs fatal ob = Inr ob' \<and>
               ob' = (sb_scaled ob)\<lparr>weight := set2 (amap (\<lambda>x. x * ps4) (weight ob)) 0 0 1\<rparr> \<and>
               weight ob' ! 0 ! 0 = 1 \<and>
               (\<forall>i<n0. \<forall>j<n1. (i, j) \<noteq> (0, 0) \<longrightarrow> weight ob' ! i ! j = weight ob ! i ! j * ps4)))"
proof -
  have sh: "0 < shape0 (amap f (weight ob)) \<and> 0 < shape1 (amap f (weight ob))" for f :: "real \<Rightarrow> real"
    using shape_rect[OF assms(2,3)] assms(3,4) by (simp add: amap_shape)
  have px: "set2 (amap f (weight ob)) 0 0 1 ! i ! j = (if (i, j) = (0, 0) then 1 else f (weight ob ! i ! j))"
    if "i < n0" "j < n1" for f :: "real \<Rightarrow> real" and i j
    using set2_get[OF amap_rect[OF assms(2)] assms(3,4) that, of f 1] amap_nth[OF assms(2) that, of f]
    by simp
  have p00: "set2 (amap f (weight ob)) 0 0 1 ! 0 ! 0 = 1" for f :: "real \<Rightarrow> real"
    using px[OF assms(3,4), of f] by simp
  have a: "to_flux_obs fatal ob = Inr ((flux_scaled ob)\<lparr>weight := set2 (amap (\<lambda>x. x / ps4) (weight ob)) 0 0 1\<rparr>)"
    if "fatal (amap (\<lambda>x. x * ps2) (image_arr ob)) (amap (\<lambda>x. x / ps4) (weight ob))"
      and "\<not> fatal (amap (\<lambda>x. x * ps2) (image_arr ob)) (set2 (amap (\<lambda>x. x / ps4) (weight ob)) 0 0 1)"
    using that assms(1,5,6) sh[of "\<lambda>x. x / ps4"] unfolding assms(7,8)
    by (simp add: to_flux_obs_def flux_scaled_def Let_def set_image_and_weight_def scale_attr_present)
  have b: "to_sb_obs fatal ob = Inr ((sb_scaled ob)\<lparr>weight := set2 (amap (\<lambda>x. x * ps4) (weight ob)) 0 0 1\<rparr>)"
    if "fatal (amap (\<lambda>x. x / ps2) (image_arr ob)) (amap (\<lambda>x. x * ps4) (weight ob))"
      and "\<not> fatal (amap (\<lambda>x. x / ps2) (image_arr ob)) (set2 (amap (\<lambda>x. x * ps4) (weight ob)) 0 0 1)"
    using that assms(1,5,6) sh[of "\<lambda>x. x * ps4"] unfolding assms(7,8)
    by (simp add: to_sb_obs_def sb_scaled_def Let_def set_image_and_weight_def scale_attr_present)
  show ?thesis
    using a b p00 px by auto
qed

theorem flux_conversion_fatal_error_caught_witness:
  "rect 1 2 [[0, 0 :: real]] \<and>
   list_all (list_all (\<lambda>x. x \<le> 0)) (amap (\<lambda>x. x / (4 * 4)) [[0, 0 :: real]]) \<and>
   \<not> list_all (list_all (\<lambda>x. x \<le> 0)) (set2 (amap (\<lambda>x. x / (4 * 4)) [[0, 0 :: real]]) 0 0 1) \<and>
   to_flux_obs (\<lambda>im w. list_all (list_all (\<lambda>x. x \<le> 0)) w)
     \<lparr>flags = 0, icut = 1, image_arr = [[1, 2]], weight = [[0, 0]], weight_raw = Arr [[16, 32]],
       weight_us = PyNone, weight_orig = Absent, seg = [[1, 0]],
       jacob = \<lparr>row0 = 0, col0 = 0, dudrow = 2, dudcol = 0, dvdrow = 0, dvdcol = 2, scale = 2\<rparr>, psf = ()\<rparr>
   = Inr \<lparr>flags = 0, icut = 1, image_arr = [[4, 8]], weight = [[1, 0]], weight_raw = Arr [[1, 2]],
       weight_us = PyNone, weight_orig = Absent, seg = [[1, 0]],
       jacob = \<lparr>row0 = 0, col0 = 0, dudrow = 2, dudcol = 0, dvdrow = 0, dvdcol = 2, scale = 2\<rparr>, psf = ()\<rparr>"
proof -
  let ?F = "\<lambda>(im :: real array2) (w :: real array2). list_all (list_all (\<lambda>x. x \<le> 0)) w"
  let ?ob = "\<lparr>flags = 0, icut = 1, image_arr = [[1, 2]], weight = [[0, 0]], weight_raw = Arr [[16, 32]],
       weight_us = PyNone, weight_orig = Absent, seg = [[1, 0]],
       jacob = \<lparr>row0 = 0, col0 = 0, dudrow = 2, dudcol = 0, dvdrow = 0, dvdcol = 2, scale = 2\<rparr>, psf = ()\<rparr>"
  have h1: "flags ?ob = 0" by simp
  have h2: "rect 1 2 (weight ?ob)" by (simp add: rect_def)
  have h3: "(0::nat) < 1" and h4: "(0::nat) < 2" by simp_all
  have h5: "weight_raw ?ob \<noteq> Absent" and h6: "weight_us ?ob \<noteq> Absent" by simp_all
  have h7: "(4::real) = (scale (jacob ?ob))\<^sup>2" by simp
  have h8: "(4 * 4 :: real) = 4 * 4" by simp
  have f1: "?F (amap (\<lambda>x. x * 4) (image_arr ?ob)) (amap (\<lambda>x. x / (4 * 4)) (weight ?ob))"
    by (simp add: amap_def)
  have f2: "\<not> ?F (amap (\<lambda>x. x * 4) (image_arr ?ob)) (set2 (amap (\<lambda>x. x / (4 * 4)) (weight ?ob)) 0 0 1)"
    by (simp add: amap_def set2_def)
  note t = flux_conversion_fatal_error_caught [where fatal = ?F, OF h1 h2 h3 h4 h5 h6 h7 h8,
      THEN conjunct1, THEN mp, OF conjI [OF f1 f2]]
  show ?thesis using t h2 f1 f2 by (auto simp: flux_scaled_def amap_def set2_def)
qed

section \<open>Claim C10: PSF trimming\<close>

text \<open>
  C10. With the configured trim dimensions \<open>dims\<close>, \<open>_trim_psf\<close> returns the slice
  \<open>im[rowstart:rowend, colstart:colend]\<close>, where \<open>rowstart = int(cen[0] - dims[0]/2 + 0.5)\<close>,
  \<open>rowend = int(cen[0] + dims[0]/2 + 0.5)\<close>, \<open>colstart = int(cen[1] - dims[1]/2 + 0.5)\<close> and
  \<open>colend = int(cen[1] + dims[1]/2 + 0.5)\<close>, and a centre from which \<open>rowstart\<close> is
  subtracted in both coordinates: the column is shifted by \<open>rowstart\<close>, not by
  \<open>colstart\<close>. When the four bounds lie inside the image, the slice has shape
  \<open>(rowend - rowstart, colend - colstart)\<close> and its pixel \<open>(i, j)\<close> is the image's pixel
  \<open>(rowstart + i, colstart + j)\<close>.
\<close>

theorem trim_psf_slice_and_center:
  assumes "rowstart = py_int_of_float (fst cen - fst dims / 2.0 + 0.5)"
    and "rowend = py_int_of_float (fst cen + fst dims / 2.0 + 0.5)"
    and "colstart = py_int_of_float (snd cen - snd dims / 2.0 + 0.5)"
    and "colend = py_int_of_float (snd cen + snd dims / 2.0 + 0.5)"
  shows "trim_psf dims im cen =
           (map (py_slice colstart colend) (py_slice rowstart rowend im),
            (fst cen - real_of_int rowstart, snd cen - real_of_int rowstart)) \<and>
         (rect n0 n1 im \<and> 0 \<le> rowstart \<and> rowstart \<le> rowend \<and> rowend \<le> int n0 \<and>
          0 \<le> colstart \<and> colstart \<le> colend \<and> colend \<le> int n1 \<longrightarrow>
            rect (nat (rowend - rowstart)) (nat (colend - colstart)) (fst (trim_psf dims im cen)) \<and>
            (\<forall>i<nat (rowend - rowstart). \<forall>j<nat (colend - colstart).
               fst (trim_psf dims im cen) ! i ! j = im ! (nat rowstart + i) ! (nat colstart + j)))"
proof (intro conjI impI)
  show e: "trim_psf dims im cen =
           (map (py_slice colstart colend) (py_slice rowstart rowend im),
            (fst cen - real_of_int rowstart, snd cen - real_of_int rowstart))"
    by (simp add: trim_psf_def Let_def assms)
  assume h: "rect n0 n1 im \<and> 0 \<le> rowstart \<and> rowstart \<le> rowend \<and> rowend \<le> int n0 \<and>
          0 \<le> colstart \<and> colstart \<le> colend \<and> colend \<le> int n1"
  then have lm: "length im = n0" and rows: "\<And>k. k < n0 \<Longrightarrow> length (im ! k) = n1"
    by (simp_all add: rect_iff)
  have rb: "0 \<le> rowstart" "rowstart \<le> rowend" "rowend \<le> int (length im)" using h lm by simp_all
  note sr = py_slice_in_range[OF rb]
  have row: "py_slice colstart colend (py_slice rowstart rowend im ! i) ! j =
             im ! (nat rowstart + i) ! (nat colstart + j) \<and>
             length (py_slice colstart colend (py_slice rowstart rowend im ! i)) = nat (colend - colstart)"
    if i: "i < nat (rowend - rowstart)" and j: "j < nat (colend - colstart)" for i j
  proof -
    have k: "nat rowstart + i < n0" using i h by linarith
    have cb: "0 \<le> colstart" "colstart \<le> colend" "colend \<le> int (length (im ! (nat rowstart + i)))"
      using h rows[OF k] by simp_all
    note sc = py_slice_in_range[OF cb]
    show ?thesis unfolding sr(3)[OF i] using sc(2) sc(3)[OF j] by simp
  qed
  have len: "length (py_slice colstart colend (py_slice rowstart rowend im ! i)) = nat (colend - colstart)"
    if i: "i < nat (rowend - rowstart)" for i
  proof -
    have k: "nat rowstart + i < n0" using i h by linarith
    have cb: "0 \<le> colstart" "colstart \<le> colend" "colend \<le> int (length (im ! (nat rowstart + i)))"
      using h rows[OF k] by simp_all
    show ?thesis unfolding sr(3)[OF i] by (rule py_slice_in_range(2)[OF cb])
  qed
  show "rect (nat (rowend - rowstart)) (nat (colend - colstart)) (fst (trim_psf dims im cen))"
    unfolding e by (simp add: rect_iff sr(2) len)
  show "\<forall>i<nat (rowend - rowstart). \<forall>j<nat (colend - colstart).
               fst (trim_psf dims im cen) ! i ! j = im ! (nat rowstart + i) ! (nat colstart + j)"
    unfolding e using row by (simp add: sr(2))
qed

theorem trim_psf_slice_and_center_witness:
  "trim_psf (2, 2) [[0, 1, 2, 3, 4], [10, 11, 12, 13, 14], [20, 21, 22, 23, 24], [30, 31, 32, 33, 34]] (2, 3)
     = ([[12, 13], [22, 23]], (1, 2)) \<and>
   rect 4 5 [[0, 1, 2, 3, 4], [10, 11, 12, 13, 14], [20, 21, 22, 23, 24], [30, 31, 32, 33, 34 :: real]] \<and>
   rect 2 2 (fst (trim_psf (2, 2)
      [[0, 1, 2, 3, 4], [10, 11, 12, 13, 14], [20, 21, 22, 23, 24], [30, 31, 32, 33, 34]] (2, 3)))"
proof -
  let ?im = "[[0, 1, 2, 3, 4], [10, 11, 12, 13, 14], [20, 21, 22, 23, 24], [30, 31, 32, 33, 34 :: real]]"
  have a: "(1::int) = py_int_of_float (fst (2::real, 3::real) - fst (2::real, 2::real) / 2.0 + 0.5)"
    and b: "(3::int) = py_int_of_float (fst (2::real, 3::real) + fst (2::real, 2::real) / 2.0 + 0.5)"
    and c: "(2::int) = py_int_of_float (snd (2::real, 3::real) - snd (2::real, 2::real) / 2.0 + 0.5)"
    and d: "(4::int) = py_int_of_float (snd (2::real, 3::real) + snd (2::real, 2::real) / 2.0 + 0.5)"
    by (simp_all add: py_int_of_float_def)
  have r: "rect 4 5 ?im" by (simp add: rect_def)
  note t = trim_psf_slice_and_center [OF a b c d, of ?im 4 5]
  have e: "trim_psf (2, 2) ?im (2, 3) = ([[12, 13], [22, 23]], (1, 2))"
    using t by (simp add: py_slice_def)
  have pre: "rect 4 5 ?im \<and> 0 \<le> (1::int) \<and> (1::int) \<le> 3 \<and> (3::int) \<le> int 4 \<and>
          0 \<le> (2::int) \<and> (2::int) \<le> 4 \<and> (4::int) \<le> int 5"
    using r by simp
  have "rect (nat (3 - 1)) (nat (4 - 2)) (fst (trim_psf (2, 2) ?im (2, 3)))"
    by (rule t [THEN conjunct2, THEN mp, OF pre, THEN conjunct1])
  then have "rect 2 2 (fst (trim_psf (2, 2) ?im (2, 3)))"
    by (simp add: numeral_2_eq_2)
  then show ?thesis using e r by blast
qed

end
